theory Spec2Isabelle
  imports
    Complex_Main
    "HOL-Library.Product_Lexorder"
    "HOL-Library.List_Lexorder"
    "HOL-Library.Char_ord"
    "HOL-Library.Monad_Syntax"
    "HOL-Library.Word"
begin

section \<open>Labelled matrices\<close>

text \<open>
  A pandas DataFrame holding a count or probability table is a labelled two-dimensional
  array: the row labels (\<open>df.index\<close>), the column labels (\<open>df.columns\<close>) and the cells,
  row by row. Cells are modelled in exact real arithmetic: the rounding of IEEE doubles
  is abstracted, which is what the "within floating tolerance" of the specification
  allows for. Missing values (NaN) are not part of the model.
\<close>

record 's matrix =
  index :: "'s list"
  columns :: "'s list"
  cells :: "real list list"

text \<open>A well-formed table is rectangular and carries each label once per axis.\<close>

definition wf_matrix :: "'s matrix \<Rightarrow> bool" where
  "wf_matrix m \<longleftrightarrow>
     distinct (index m) \<and> distinct (columns m) \<and>
     length (cells m) = length (index m) \<and>
     list_all (\<lambda>row. length row = length (columns m)) (cells m)"

subsection \<open>row_normalize\<close>

text \<open>
  \<^verbatim>\<open>
  def row_normalize(df):
      df = df.copy().astype(float)
      row_sums = df.sum(axis=1)
      nonzero = row_sums != 0
      df.loc[nonzero] = df.loc[nonzero].div(row_sums[nonzero], axis=0)
      df.loc[~nonzero] = 0
      return df
  \<close>
  The two masked assignments work row by row: a row of the mask \<open>nonzero\<close> is divided
  by its sum, a row outside it is overwritten with zeros.
\<close>

definition row_sums :: "'s matrix \<Rightarrow> real list" where
  "row_sums m = map sum_list (cells m)"

definition normalize_row :: "real list \<Rightarrow> real list" where
  "normalize_row row =
     (let s = sum_list row
      in if s \<noteq> 0 then map (\<lambda>x. x / s) row else map (\<lambda>_. 0) row)"

definition row_normalize :: "'s matrix \<Rightarrow> 's matrix" where
  "row_normalize df = df\<lparr>cells := map normalize_row (cells df)\<rparr>"

subsection \<open>laplace_smoothing\<close>

text \<open>
  \<^verbatim>\<open>
  def laplace_smoothing(counts, alpha=1.0):
      counts_s = counts + alpha
      probs = row_normalize(counts_s)
      return probs
  \<close>
\<close>

definition add_scalar :: "'s matrix \<Rightarrow> real \<Rightarrow> 's matrix" where
  "add_scalar df a = df\<lparr>cells := map (map (\<lambda>x. x + a)) (cells df)\<rparr>"

definition laplace_smoothing :: "'s matrix \<Rightarrow> real \<Rightarrow> 's matrix" where
  "laplace_smoothing counts alpha = row_normalize (add_scalar counts alpha)"

subsection \<open>ensure_probability_matrix\<close>

text \<open>
  \<^verbatim>\<open>
  def ensure_probability_matrix(df):
      df = df.clip(lower=0)
      return row_normalize(df)
  \<close>
\<close>

definition clip_lower :: "'s matrix \<Rightarrow> real \<Rightarrow> 's matrix" where
  "clip_lower df lo = df\<lparr>cells := map (map (\<lambda>x. max lo x)) (cells df)\<rparr>"

definition ensure_probability_matrix :: "'s matrix \<Rightarrow> 's matrix" where
  "ensure_probability_matrix df = row_normalize (clip_lower df 0)"

text \<open>
  The specification's probability matrix: every row sums to one or is identically zero.
\<close>

definition is_probability_matrix :: "'s matrix \<Rightarrow> bool" where
  "is_probability_matrix m \<longleftrightarrow>
     list_all (\<lambda>row. sum_list row = 1 \<or> list_all (\<lambda>x. x = 0) row) (cells m)"

section \<open>Shrinkage toward the pooled estimate\<close>

text \<open>
  \<^verbatim>\<open>
  def shrink_toward_pool(age_tables, pool_weight=0.5):
      all_states = set()
      for tbl in age_tables.values():
          all_states.update(tbl.index.tolist())
          all_states.update(tbl.columns.tolist())
      all_states = sorted(all_states)
      pooled = pd.DataFrame(0, index=all_states, columns=all_states, dtype=float)
      for tbl in age_tables.values():
          tbl2 = tbl.reindex(index=all_states, columns=all_states, fill_value=0)
          pooled += tbl2
      pooled_probs = row_normalize(pooled)
      out = {}
      for age, tbl in age_tables.items():
          tbl2 = tbl.reindex(index=all_states, columns=all_states, fill_value=0)
          probs = row_normalize(tbl2)
          shrunk = (1 - pool_weight) * probs + pool_weight * pooled_probs
          out[age] = shrunk
      return out
  \<close>
  The dictionary \<open>age_tables\<close> is an association list in insertion order (the order in
  which \<open>values()\<close> and \<open>items()\<close> iterate); its keys are the ages.

  \<open>DataFrame.reindex\<close> looks every requested label up in the table and fills the cells of
  a label the table does not have with \<open>fill_value\<close>. On a table that carries a label
  twice on an axis pandas raises \<open>ValueError\<close> (cannot reindex on an axis with duplicate
  labels): the error \<open>DuplicateLabels\<close> of the model.
\<close>

datatype error = DuplicateLabels

fun index_of :: "'a \<Rightarrow> 'a list \<Rightarrow> nat option" where
  "index_of x [] = None"
| "index_of x (y # ys) = (if x = y then Some 0 else map_option Suc (index_of x ys))"

definition cell_at :: "'s matrix \<Rightarrow> 's \<Rightarrow> 's \<Rightarrow> real \<Rightarrow> real" where
  "cell_at tbl r c fill_value =
     (case (index_of r (index tbl), index_of c (columns tbl)) of
        (Some i, Some j) \<Rightarrow> cells tbl ! i ! j
      | _ \<Rightarrow> fill_value)"

definition reindex_mat :: "'s matrix \<Rightarrow> 's list \<Rightarrow> 's list \<Rightarrow> real \<Rightarrow> 's matrix" where
  "reindex_mat tbl rlabels clabels fill_value =
     \<lparr>index = rlabels, columns = clabels,
      cells = map (\<lambda>r. map (\<lambda>c. cell_at tbl r c fill_value) clabels) rlabels\<rparr>"

definition reindex :: "'s matrix \<Rightarrow> 's list \<Rightarrow> 's list \<Rightarrow> real \<Rightarrow> error + 's matrix" where
  "reindex tbl rlabels clabels fill_value =
     (if distinct (index tbl) \<and> distinct (columns tbl)
      then Inr (reindex_mat tbl rlabels clabels fill_value)
      else Inl DuplicateLabels)"

definition all_states :: "(int \<times> ('s::linorder) matrix) list \<Rightarrow> 's list" where
  "all_states age_tables =
     sort (remdups (concat (map (\<lambda>(age, tbl). index tbl @ columns tbl) age_tables)))"

text \<open>
  \<open>pd.DataFrame(0, index=all_states, columns=all_states, dtype=float)\<close>, the in-place
  sum \<open>pooled += tbl2\<close> and the scalar product. The operands of every sum in
  \<open>shrink_toward_pool\<close> carry the labels \<open>all_states\<close> on both axes, so the label
  alignment of pandas is the positional sum.
\<close>

definition zeros :: "'s list \<Rightarrow> 's matrix" where
  "zeros ls = \<lparr>index = ls, columns = ls,
               cells = replicate (length ls) (replicate (length ls) 0)\<rparr>"

definition mat_add :: "'s matrix \<Rightarrow> 's matrix \<Rightarrow> 's matrix" where
  "mat_add a b = a\<lparr>cells := map2 (map2 (+)) (cells a) (cells b)\<rparr>"

definition scale :: "real \<Rightarrow> 's matrix \<Rightarrow> 's matrix" where
  "scale k m = m\<lparr>cells := map (map (\<lambda>x. k * x)) (cells m)\<rparr>"

fun pool_loop :: "'s list \<Rightarrow> (int \<times> 's matrix) list \<Rightarrow> 's matrix \<Rightarrow> error + 's matrix" where
  "pool_loop S [] pooled = Inr pooled"
| "pool_loop S ((age, tbl) # rest) pooled =
     (case reindex tbl S S 0 of
        Inl e \<Rightarrow> Inl e
      | Inr tbl2 \<Rightarrow> pool_loop S rest (mat_add pooled tbl2))"

text \<open>\<open>(1 - pool_weight) * probs + pool_weight * pooled_probs\<close>\<close>

definition blend :: "real \<Rightarrow> 's matrix \<Rightarrow> 's matrix \<Rightarrow> 's matrix" where
  "blend w probs pp = mat_add (scale (1 - w) probs) (scale w pp)"

fun shrink_loop ::
  "'s list \<Rightarrow> real \<Rightarrow> 's matrix \<Rightarrow> (int \<times> 's matrix) list \<Rightarrow> (int \<times> 's matrix) list
     \<Rightarrow> error + (int \<times> 's matrix) list" where
  "shrink_loop S w pooled_probs [] out = Inr out"
| "shrink_loop S w pooled_probs ((age, tbl) # rest) out =
     (case reindex tbl S S 0 of
        Inl e \<Rightarrow> Inl e
      | Inr tbl2 \<Rightarrow>
          (let probs = row_normalize tbl2;
               shrunk = blend w probs pooled_probs
           in shrink_loop S w pooled_probs rest (out @ [(age, shrunk)])))"

definition shrink_toward_pool ::
  "(int \<times> ('s::linorder) matrix) list \<Rightarrow> real \<Rightarrow> error + (int \<times> 's matrix) list" where
  "shrink_toward_pool age_tables pool_weight =
     (let S = all_states age_tables
      in case pool_loop S age_tables (zeros S) of
           Inl e \<Rightarrow> Inl e
         | Inr pooled \<Rightarrow>
             shrink_loop S pool_weight (row_normalize pooled) age_tables [])"

text \<open>
  The intermediate tables of a run that raises nothing: the pooled counts (the value of
  \<open>pooled\<close> after the first loop), the pooled probabilities and the probabilities of one
  age (\<open>probs\<close> in the second loop).
\<close>

definition pooled_counts :: "(int \<times> ('s::linorder) matrix) list \<Rightarrow> 's matrix" where
  "pooled_counts age_tables =
     (let S = all_states age_tables
      in fold (\<lambda>(age, tbl) pooled. mat_add pooled (reindex_mat tbl S S 0)) age_tables (zeros S))"

definition pooled_probs :: "(int \<times> ('s::linorder) matrix) list \<Rightarrow> 's matrix" where
  "pooled_probs age_tables = row_normalize (pooled_counts age_tables)"

definition age_probs :: "(int \<times> ('s::linorder) matrix) list \<Rightarrow> 's matrix \<Rightarrow> 's matrix" where
  "age_probs age_tables tbl =
     (let S = all_states age_tables in row_normalize (reindex_mat tbl S S 0))"

text \<open>Count tables have no negative cell.\<close>

definition nonneg :: "'s matrix \<Rightarrow> bool" where
  "nonneg m \<longleftrightarrow> list_all (list_all (\<lambda>x. 0 \<le> x)) (cells m)"

definition labels_distinct :: "'s matrix \<Rightarrow> bool" where
  "labels_distinct tbl \<longleftrightarrow> distinct (index tbl) \<and> distinct (columns tbl)"

text \<open>A list of rows that has \<open>n\<close> rows of \<open>m\<close> cells each.\<close>

definition rect :: "nat \<Rightarrow> nat \<Rightarrow> real list list \<Rightarrow> bool" where
  "rect n m css \<longleftrightarrow> length css = n \<and> list_all (\<lambda>row. length row = m) css"

text \<open>
  Two count tables on different state sets: age 0 over the states A and B, age 1 with
  the single row B and the columns C and A.
\<close>

definition example_age0 :: "string matrix" where
  "example_age0 = \<lparr>index = [''A'', ''B''], columns = [''A'', ''B''], cells = [[8, 2], [1, 9]]\<rparr>"

definition example_age1 :: "string matrix" where
  "example_age1 = \<lparr>index = [''B''], columns = [''C'', ''A''], cells = [[3, 1]]\<rparr>"

definition example_tables :: "(int \<times> string matrix) list" where
  "example_tables = [(0, example_age0), (1, example_age1)]"

section \<open>Loan records\<close>

text \<open>
  The record table is a DataFrame with the columns \<open>loan_id\<close>, \<open>origination_date\<close>,
  \<open>observation_date\<close>, \<open>delinquency_bucket\<close> and \<open>balance\<close>, and possibly the column
  \<open>age_months\<close>. The two dates are parsed timestamps (\<open>datetime64\<close>); the model keeps
  their calendar fields. The functions are modelled with their default column names.
  The records of this section are complete: no cell is missing. Tables with missing
  cells (NaN, NaT) are modelled for \<open>build_vintage_pivot\<close>, whose \<open>groupby\<close> drops rows
  by them.
\<close>

record timestamp =
  year :: int
  month :: int
  day :: int

definition ts_key :: "timestamp \<Rightarrow> int \<times> int \<times> int" where
  "ts_key t = (year t, month t, day t)"

text \<open>The order of timestamps: \<open>a\<close> lies before \<open>b\<close>.\<close>

definition ts_less :: "timestamp \<Rightarrow> timestamp \<Rightarrow> bool" where
  "ts_less a b \<longleftrightarrow> ts_key a < ts_key b"

definition valid_timestamp :: "timestamp \<Rightarrow> bool" where
  "valid_timestamp t \<longleftrightarrow> 1 \<le> month t \<and> month t \<le> 12 \<and> 1 \<le> day t \<and> day t \<le> 31"

record ('i, 's) loan =
  loan_id :: 'i
  origination_date :: timestamp
  observation_date :: timestamp
  delinquency_bucket :: 's
  balance :: real

definition valid_dates :: "('i, 's) loan \<Rightarrow> bool" where
  "valid_dates r \<longleftrightarrow> valid_timestamp (origination_date r) \<and> valid_timestamp (observation_date r)"

text \<open>
  The table: its rows, and the column \<open>age_months\<close> when the table has it
  (\<open>age_col in df.columns\<close>). A column is as long as the table.
\<close>

record ('i, 's) frame =
  rows :: "('i, 's) loan list"
  age_months :: "int list option"

definition wf_frame :: "('i, 's) frame \<Rightarrow> bool" where
  "wf_frame df \<longleftrightarrow>
     (case age_months df of None \<Rightarrow> True | Some ages \<Rightarrow> length ages = length (rows df))"

definition the_ages :: "('i, 's) frame \<Rightarrow> int list" where
  "the_ages df = (case age_months df of Some ages \<Rightarrow> ages | None \<Rightarrow> [])"

subsection \<open>compute_age_months\<close>

text \<open>
  \<^verbatim>\<open>
  def compute_age_months(df, orig_col='origination_date', obs_col='observation_date'):
      df = df.copy()
      df['age_months'] = (df[obs_col].dt.to_period('M')
                          - df[orig_col].dt.to_period('M')).apply(lambda x: x.n)
      return df
  \<close>
  \<open>to_period('M')\<close> maps a timestamp to its monthly period, whose ordinal counts the
  months since January 1970; the difference of two periods is an offset of \<open>n\<close> months,
  the difference of the ordinals.
\<close>

definition to_period_M :: "timestamp \<Rightarrow> int" where
  "to_period_M t = (year t - 1970) * 12 + (month t - 1)"

definition period_diff_n :: "int \<Rightarrow> int \<Rightarrow> int" where
  "period_diff_n p q = p - q"

definition age_of :: "('i, 's) loan \<Rightarrow> int" where
  "age_of r = period_diff_n (to_period_M (observation_date r)) (to_period_M (origination_date r))"

definition compute_age_months :: "('i, 's) frame \<Rightarrow> ('i, 's) frame" where
  "compute_age_months df = df\<lparr>age_months := Some (map age_of (rows df))\<rparr>"

subsection \<open>compute_empirical_transitions\<close>

text \<open>
  \<^verbatim>\<open>
  def compute_empirical_transitions(df, id_col='loan_id', age_col='age_months',
                                    state_col='delinquency_bucket'):
      """Compute empirical transition counts between state at age a and state at age a+1.
      Returns a dict: {age: DataFrame (from_state rows x to_state cols with counts)}
      Expects one row per (id, age).
      """
      if age_col not in df.columns:
          df = compute_age_months(df)
      df2 = df[[id_col, age_col, state_col]].copy().sort_values([id_col, age_col])
      df2['next_age'] = df2[age_col] + 1
      df_next = df2[[id_col, 'next_age', state_col]].rename(
          columns={'next_age': age_col, state_col: 'to_state'})
      df_next = df_next.set_index([id_col, age_col])
      df_curr = df2.set_index([id_col, age_col])
      joined = df_curr.join(df_next, how='inner').reset_index()
      trans = {}
      for age, grp in joined.groupby(age_col):
          table = pd.crosstab(grp[state_col], grp['to_state'])
          trans[int(age)] = table
      return trans
  \<close>
  \<open>pd.crosstab(a, b)\<close> counts the pairs of the two columns: the row labels are the sorted
  distinct values of \<open>a\<close>, the column labels those of \<open>b\<close>.
\<close>

definition crosstab :: "(('s::linorder) \<times> 's) list \<Rightarrow> 's matrix" where
  "crosstab pairs =
     (let idx = sort (remdups (map fst pairs));
          cols = sort (remdups (map snd pairs))
      in \<lparr>index = idx, columns = cols,
          cells = map (\<lambda>r. map (\<lambda>c. real (length (filter (\<lambda>p. p = (r, c)) pairs))) cols) idx\<rparr>)"

text \<open>
  The inner join of two tables on their index: every row of the left table paired with
  every row of the right table that has the same key.
\<close>

definition inner_join ::
  "('k \<times> 'a) list \<Rightarrow> ('k \<times> 'b) list \<Rightarrow> ('k \<times> 'a \<times> 'b) list" where
  "inner_join left right =
     concat (map (\<lambda>(k, a). map (\<lambda>(k', b). (k, a, b)) (filter (\<lambda>(k', b). k' = k) right)) left)"

text \<open>
  A frame with the age column: \<open>df\<close> after the first two lines of
  \<open>compute_empirical_transitions\<close> and of \<open>build_vintage_pivot\<close>.
\<close>

definition aged :: "('i, 's) frame \<Rightarrow> ('i, 's) frame" where
  "aged df = (if age_months df = None then compute_age_months df else df)"

text \<open>
  \<open>df[[id_col, age_col, state_col]]\<close>: the triples (id, age, state), and their sorting by
  (id, age).
\<close>

definition selection :: "('i, 's) frame \<Rightarrow> ('i \<times> int \<times> 's) list" where
  "selection df = map (\<lambda>(r, a). (loan_id r, a, delinquency_bucket r)) (zip (rows df) (the_ages df))"

definition sort_values :: "(('i::linorder) \<times> int \<times> 's) list \<Rightarrow> ('i \<times> int \<times> 's) list" where
  "sort_values df2 = sort_key (\<lambda>(i, a, s). (i, a)) df2"

definition next_ages :: "('i \<times> int \<times> 's) list \<Rightarrow> int list" where
  "next_ages df2 = map (\<lambda>(i, a, s). a + 1) df2"

text \<open>
  From \<open>df2\<close> and its column \<open>next_age\<close>: \<open>df_next\<close> is keyed by (id, next_age) and carries
  the state as \<open>to_state\<close>; \<open>df_curr\<close> is keyed by (id, age) and carries the state and
  \<open>next_age\<close>. The result dictionary is an association list in insertion order: the ages
  of \<open>joined\<close> in ascending order, as \<open>groupby\<close> yields them.
\<close>

definition transition_tables ::
  "(('i::linorder) \<times> int \<times> ('s::linorder)) list \<Rightarrow> int list \<Rightarrow> (int \<times> 's matrix) list" where
  "transition_tables df2 next_age =
     (let df_next = map (\<lambda>((i, a, s), n). ((i, n), s)) (zip df2 next_age);
          df_curr = map (\<lambda>((i, a, s), n). ((i, a), (s, n))) (zip df2 next_age);
          joined = inner_join df_curr df_next;
          ages = sort (remdups (map (\<lambda>((i, a), (s, n), ts). a) joined))
      in map (\<lambda>age. (age, crosstab (map (\<lambda>((i, a), (s, n), ts). (s, ts))
                                     (filter (\<lambda>((i, a), (s, n), ts). a = age) joined)))) ages)"

definition compute_empirical_transitions ::
  "('i::linorder, 's::linorder) frame \<Rightarrow> (int \<times> 's matrix) list" where
  "compute_empirical_transitions df0 =
     (let df = aged df0;
          df2 = sort_values (selection df)
      in transition_tables df2 (next_ages df2))"

subsection \<open>build_vintage_pivot\<close>

text \<open>
  \<^verbatim>\<open>
  def build_vintage_pivot(df, vintage_col='origination_date', age_col='age_months',
                          state_col='delinquency_bucket', value_col='balance'):
      if age_col not in df.columns:
          df = compute_age_months(df, orig_col=vintage_col, obs_col='observation_date')
      grouped = df.groupby([vintage_col, age_col, state_col])[value_col].sum().reset_index()
      pivot = grouped.pivot_table(index=[vintage_col, age_col], columns=state_col,
                                  values=value_col, fill_value=0)
      pivot.index.names = [vintage_col, age_col]
      pivot.columns.name = state_col
      return pivot
  \<close>
  \<open>groupby(...)\<close> drops every row in which one of the grouping keys is missing
  (\<open>dropna=True\<close>, the default); \<open>sum()\<close> has one row per distinct remaining key, in key
  order, with the sum of the values of that key in the dtype of the value column: a
  floating column skips missing values, an \<open>int64\<close> column wraps around. \<open>pivot_table\<close>
  aggregates with its default, the mean, over the rows of \<open>grouped\<close> with the cell's
  key, and fills a cell without rows with \<open>fill_value\<close>; it names the index levels and
  the column axis after the columns it was given, and the last two assignments write
  the same names again.
\<close>

record 's pivot =
  pivot_index :: "(timestamp \<times> int) list"
  pivot_columns :: "'s list"
  pivot_cells :: "real list list"
  index_names :: "string list"
  columns_name :: string

text \<open>
  A cell of the value column: a double, possibly missing (NaN), or a 64-bit integer.
  A column has one dtype. \<open>num_value\<close> is the number a cell stands for, a missing value
  counting as zero, as \<open>sum\<close> counts it.
\<close>

datatype num = Float "real option" | Int64 "64 word"

definition num_value :: "num \<Rightarrow> real" where
  "num_value v =
     (case v of Float None \<Rightarrow> 0 | Float (Some x) \<Rightarrow> x | Int64 w \<Rightarrow> real_of_int (sint w))"

definition is_int64 :: "num \<Rightarrow> bool" where
  "is_int64 v = (case v of Int64 w \<Rightarrow> True | Float x \<Rightarrow> False)"

definition the_int64 :: "num \<Rightarrow> 64 word" where
  "the_int64 v = (case v of Int64 w \<Rightarrow> w | Float x \<Rightarrow> 0)"

text \<open>
  The sum of the cells of one group: in 64-bit arithmetic for cells of an \<open>int64\<close>
  column, in floating point (modelled exactly) otherwise.
\<close>

definition column_sum :: "num list \<Rightarrow> real" where
  "column_sum vals =
     (if list_all is_int64 vals then real_of_int (sint (sum_list (map the_int64 vals)))
      else sum_list (map num_value vals))"

text \<open>The rows whose three grouping keys are all present, with the keys.\<close>

definition dropna_keys ::
  "(('a option \<times> 'b option \<times> 'c option) \<times> 'v) list \<Rightarrow> (('a \<times> 'b \<times> 'c) \<times> 'v) list" where
  "dropna_keys recs =
     List.map_filter
       (\<lambda>(k, x). case k of (Some v, Some a, Some s) \<Rightarrow> Some ((v, a, s), x) | _ \<Rightarrow> None) recs"

definition groupby_sum ::
  "((timestamp option \<times> int option \<times> ('s::linorder) option) \<times> num) list
     \<Rightarrow> ((timestamp \<times> int \<times> 's) \<times> real) list" where
  "groupby_sum recs =
     (let kept = dropna_keys recs
      in map (\<lambda>k. (k, column_sum (map snd (filter (\<lambda>(k', x). k' = k) kept))))
           (sort_key (\<lambda>(v, a, s). (ts_key v, a, s)) (remdups (map fst kept))))"

definition mean :: "real list \<Rightarrow> real" where
  "mean vals = sum_list vals / real (length vals)"

definition pivot_cell :: "('k \<times> real) list \<Rightarrow> real \<Rightarrow> 'k \<Rightarrow> real" where
  "pivot_cell grouped fill_value k =
     (let vals = map snd (filter (\<lambda>(k', x). k' = k) grouped)
      in if vals = [] then fill_value else mean vals)"

definition pivot_table ::
  "((timestamp \<times> int \<times> ('s::linorder)) \<times> real) list \<Rightarrow> real \<Rightarrow> 's pivot" where
  "pivot_table grouped fill_value =
     (let idx = sort_key (\<lambda>(v, a). (ts_key v, a)) (remdups (map (\<lambda>((v, a, s), x). (v, a)) grouped));
          cols = sort (remdups (map (\<lambda>((v, a, s), x). s) grouped))
      in \<lparr>pivot_index = idx, pivot_columns = cols,
          pivot_cells =
            map (\<lambda>(v, a). map (\<lambda>s. pivot_cell grouped fill_value (v, a, s)) cols) idx,
          index_names = [''origination_date'', ''age_months''],
          columns_name = ''delinquency_bucket''\<rparr>)"

text \<open>
  On a table of complete records (no key is missing, the balance is a double):
\<close>

definition vintage_records ::
  "('i, 's) frame \<Rightarrow> ((timestamp option \<times> int option \<times> 's option) \<times> num) list" where
  "vintage_records df =
     map (\<lambda>(r, a). ((Some (origination_date r), Some a, Some (delinquency_bucket r)),
                    Float (Some (balance r))))
       (zip (rows df) (the_ages df))"

definition build_vintage_pivot :: "('i, 's::linorder) frame \<Rightarrow> 's pivot" where
  "build_vintage_pivot df0 =
     (let df = aged df0;
          grouped = groupby_sum (vintage_records df);
          pivot = pivot_table grouped 0
      in pivot\<lparr>index_names := [''origination_date'', ''age_months''],
               columns_name := ''delinquency_bucket''\<rparr>)"

text \<open>
  On any table: the columns that \<open>build_vintage_pivot\<close> reads, each cell of which may be
  missing (NaT for a date, NaN or None for a state, NaN for an age or a balance), and
  the column \<open>age_months\<close> when the table has it.
\<close>

record 's na_row =
  na_origination_date :: "timestamp option"
  na_observation_date :: "timestamp option"
  na_delinquency_bucket :: "'s option"
  na_balance :: num

record 's na_frame =
  na_rows :: "'s na_row list"
  na_age_months :: "int option list option"


definition dates_present :: "'s na_row \<Rightarrow> bool" where
  "dates_present r \<longleftrightarrow> na_origination_date r \<noteq> None \<and> na_observation_date r \<noteq> None"

text \<open>
  \<open>compute_age_months\<close> on such a table: the difference of two periods is NaT where a
  date is missing, and \<open>x.n\<close> on NaT raises \<open>AttributeError\<close>.
\<close>

datatype na_error = AttributeError

definition na_age_of :: "'s na_row \<Rightarrow> int" where
  "na_age_of r =
     period_diff_n (to_period_M (the (na_observation_date r)))
       (to_period_M (the (na_origination_date r)))"

definition compute_age_months_na :: "'s na_frame \<Rightarrow> na_error + 's na_frame" where
  "compute_age_months_na df =
     (if list_all dates_present (na_rows df)
      then Inr (df\<lparr>na_age_months := Some (map (\<lambda>r. Some (na_age_of r)) (na_rows df))\<rparr>)
      else Inl AttributeError)"

definition na_records ::
  "'s na_frame \<Rightarrow> ((timestamp option \<times> int option \<times> 's option) \<times> num) list" where
  "na_records df =
     map (\<lambda>(r, a). ((na_origination_date r, a, na_delinquency_bucket r), na_balance r))
       (zip (na_rows df) (case na_age_months df of Some ages \<Rightarrow> ages | None \<Rightarrow> []))"

definition build_vintage_pivot_na :: "('s::linorder) na_frame \<Rightarrow> na_error + 's pivot" where
  "build_vintage_pivot_na df0 =
     (case (if na_age_months df0 = None then compute_age_months_na df0 else Inr df0) of
        Inl e \<Rightarrow> Inl e
      | Inr df \<Rightarrow>
          Inr (let grouped = groupby_sum (na_records df);
                   pivot = pivot_table grouped 0
               in pivot\<lparr>index_names := [''origination_date'', ''age_months''],
                        columns_name := ''delinquency_bucket''\<rparr>))"

text \<open>
  The rows of the table with their keys and values, the age taken from the column
  \<open>age_months\<close> or, without it, computed from the dates; and the table of complete
  records as such a table.
\<close>

definition grouping_records ::
  "'s na_frame \<Rightarrow> ((timestamp option \<times> int option \<times> 's option) \<times> num) list" where
  "grouping_records df =
     map (\<lambda>(r, a). ((na_origination_date r, a, na_delinquency_bucket r), na_balance r))
       (zip (na_rows df)
          (case na_age_months df of
             Some ages \<Rightarrow> ages
           | None \<Rightarrow> map (\<lambda>r. Some (na_age_of r)) (na_rows df)))"

definition na_frame_of :: "('i, 's) frame \<Rightarrow> 's na_frame" where
  "na_frame_of df =
     \<lparr>na_rows = map (\<lambda>r. \<lparr>na_origination_date = Some (origination_date r),
                            na_observation_date = Some (observation_date r),
                            na_delinquency_bucket = Some (delinquency_bucket r),
                            na_balance = Float (Some (balance r))\<rparr>) (rows df),
      na_age_months = map_option (map Some) (age_months df)\<rparr>"



text \<open>
  For the analysis of the pivot: the exact sum of the values of one key, the grouped
  table with exact sums, and the rows that \<open>groupby\<close> keeps with the numbers their values
  stand for.
\<close>

definition group_sum :: "('k \<times> real) list \<Rightarrow> 'k \<Rightarrow> real" where
  "group_sum recs k = sum_list (map snd (filter (\<lambda>(k', x). k' = k) recs))"



subsection \<open>Example records\<close>

text \<open>
  A loan originated on 15 January 2020 and observed \<open>m\<close> months later (\<open>m\<close> up to 11),
  with a balance of 100.
\<close>

definition example_loan :: "string \<Rightarrow> int \<Rightarrow> string \<Rightarrow> (string, string) loan" where
  "example_loan i m s =
     \<lparr>loan_id = i, origination_date = \<lparr>year = 2020, month = 1, day = 15\<rparr>,
      observation_date = \<lparr>year = 2020, month = 1 + m, day = 15\<rparr>,
      delinquency_bucket = s, balance = 100\<rparr>"

text \<open>Entity X at the ages 0, 1, 2 in the states A, B, C.\<close>

definition entity_X :: "(string, string) frame" where
  "entity_X = \<lparr>rows = [example_loan ''X'' 0 ''A'', example_loan ''X'' 1 ''B'', example_loan ''X'' 2 ''C''],
               age_months = Some [0, 1, 2]\<rparr>"

text \<open>Entity Y at the ages 0 and 2 (no record at age 1) in the states A and C.\<close>

definition entity_Y :: "(string, string) frame" where
  "entity_Y = \<lparr>rows = [example_loan ''Y'' 0 ''A'', example_loan ''Y'' 2 ''C''],
               age_months = Some [0, 2]\<rparr>"

text \<open>Entity X with two records at age 0 (state A) and three records at age 1 (state B).\<close>

definition entity_dup :: "(string, string) frame" where
  "entity_dup = \<lparr>rows = [example_loan ''X'' 0 ''A'', example_loan ''X'' 0 ''A'',
                         example_loan ''X'' 1 ''B'', example_loan ''X'' 1 ''B'', example_loan ''X'' 1 ''B''],
                 age_months = Some [0, 0, 1, 1, 1]\<rparr>"

text \<open>Five records of three loans, without the age column.\<close>

definition example_book :: "(string, string) frame" where
  "example_book =
     \<lparr>rows = [example_loan ''X'' 0 ''A'', example_loan ''Y'' 0 ''A'', example_loan ''X'' 1 ''B'',
              example_loan ''Y'' 1 ''A'', example_loan ''Z'' 0 ''B''],
      age_months = None\<rparr>"

text \<open>
  A loan observed on 5 January 2020, before its origination on 20 January 2020; a loan
  originated on 31 January 2020 and observed the next day; a loan observed three
  calendar months before its origination.
\<close>

definition loan_observed_early :: "(string, string) loan" where
  "loan_observed_early =
     \<lparr>loan_id = ''X'', origination_date = \<lparr>year = 2020, month = 1, day = 20\<rparr>,
      observation_date = \<lparr>year = 2020, month = 1, day = 5\<rparr>,
      delinquency_bucket = ''A'', balance = 100\<rparr>"

definition loan_month_end :: "(string, string) loan" where
  "loan_month_end =
     \<lparr>loan_id = ''X'', origination_date = \<lparr>year = 2020, month = 1, day = 31\<rparr>,
      observation_date = \<lparr>year = 2020, month = 2, day = 1\<rparr>,
      delinquency_bucket = ''A'', balance = 100\<rparr>"

definition loan_previous_year :: "(string, string) loan" where
  "loan_previous_year =
     \<lparr>loan_id = ''X'', origination_date = \<lparr>year = 2020, month = 2, day = 10\<rparr>,
      observation_date = \<lparr>year = 2019, month = 11, day = 30\<rparr>,
      delinquency_bucket = ''A'', balance = 100\<rparr>"

text \<open>
  Three records of one vintage at age 0 with a balance of 100 each, in the states A, A
  and unknown (the state of the third record is missing); and two records of one key
  whose 64-bit balances are \<open>2 ^ 62\<close> each.
\<close>

definition na_example_row :: "string option \<Rightarrow> num \<Rightarrow> string na_row" where
  "na_example_row s v =
     \<lparr>na_origination_date = Some \<lparr>year = 2020, month = 1, day = 15\<rparr>,
      na_observation_date = Some \<lparr>year = 2020, month = 1, day = 31\<rparr>,
      na_delinquency_bucket = s, na_balance = v\<rparr>"


definition book_int64 :: "string na_frame" where
  "book_int64 =
     \<lparr>na_rows = [na_example_row (Some ''A'') (Int64 4611686018427387904),
                 na_example_row (Some ''A'') (Int64 4611686018427387904)],
      na_age_months = Some [Some 0, Some 0]\<rparr>"

section \<open>The functions on a store of objects\<close>

text \<open>
  To speak about mutation, the functions are modelled a second time on an explicit
  store. The store is the list of all objects allocated so far; a reference is a
  position in it; allocation appends an object, and an assignment in place overwrites
  the object at a reference. A Python name holds a reference, and rebinding a name
  (\<open>df = df.copy()\<close>) changes the name, not the store.

  Each function takes the store and the references of its arguments, and returns the
  new store and the reference of its result; \<open>None\<close> stands for a raised exception (a
  reference to an object of the wrong type, which a caller of the Python function
  cannot pass, or the \<open>ValueError\<close> of \<open>reindex\<close>). The pandas operations fall into two
  groups. These return a new object and leave their operands alone: \<open>copy\<close>,
  \<open>astype\<close>, column selection, \<open>sort_values\<close>, \<open>rename\<close>, \<open>set_index\<close>, \<open>join\<close>,
  \<open>reset_index\<close>, \<open>groupby\<close> with \<open>sum\<close>, \<open>pivot_table\<close>, \<open>crosstab\<close>, \<open>reindex\<close>,
  \<open>clip\<close>, \<open>sum\<close>, \<open>div\<close>, and the arithmetic \<open>+\<close> and \<open>*\<close>. These write into an existing
  object: the column assignment \<open>df[c] = ...\<close>, the masked assignment
  \<open>df.loc[mask] = ...\<close>, the augmented assignment \<open>pooled += tbl2\<close>, the attribute
  assignments on \<open>pivot.index\<close> and \<open>pivot.columns\<close>, \<open>set.update\<close>, and the item
  assignment of a dictionary. Intermediate results that are never written into (series,
  masks, lists of labels, the joined and grouped tables) are values of the model and
  not objects of the store.
\<close>

datatype ('i, 's) obj =
    Frame "('i, 's) frame"
  | Selection "('i \<times> int \<times> 's) list" "int list option"
  | Table "'s matrix"
  | PivotTable "'s pivot"
  | StateSet "'s list"
  | Dict "(int \<times> nat) list"

type_synonym ('i, 's) heap = "('i, 's) obj list"

definition alloc :: "('i, 's) heap \<Rightarrow> ('i, 's) obj \<Rightarrow> ('i, 's) heap \<times> nat" where
  "alloc h v = (h @ [v], length h)"

definition store :: "('i, 's) heap \<Rightarrow> nat \<Rightarrow> ('i, 's) obj \<Rightarrow> ('i, 's) heap" where
  "store h r v = h[r := v]"

definition lookup :: "('i, 's) heap \<Rightarrow> nat \<Rightarrow> ('i, 's) obj option" where
  "lookup h r = (if r < length h then Some (h ! r) else None)"

definition get_frame :: "('i, 's) heap \<Rightarrow> nat \<Rightarrow> ('i, 's) frame option" where
  "get_frame h r = (case lookup h r of Some (Frame f) \<Rightarrow> Some f | _ \<Rightarrow> None)"

definition get_selection ::
  "('i, 's) heap \<Rightarrow> nat \<Rightarrow> (('i \<times> int \<times> 's) list \<times> int list option) option" where
  "get_selection h r = (case lookup h r of Some (Selection xs n) \<Rightarrow> Some (xs, n) | _ \<Rightarrow> None)"

definition get_table :: "('i, 's) heap \<Rightarrow> nat \<Rightarrow> 's matrix option" where
  "get_table h r = (case lookup h r of Some (Table m) \<Rightarrow> Some m | _ \<Rightarrow> None)"

definition get_pivot :: "('i, 's) heap \<Rightarrow> nat \<Rightarrow> 's pivot option" where
  "get_pivot h r = (case lookup h r of Some (PivotTable p) \<Rightarrow> Some p | _ \<Rightarrow> None)"

definition get_states :: "('i, 's) heap \<Rightarrow> nat \<Rightarrow> 's list option" where
  "get_states h r = (case lookup h r of Some (StateSet s) \<Rightarrow> Some s | _ \<Rightarrow> None)"

definition get_dict :: "('i, 's) heap \<Rightarrow> nat \<Rightarrow> (int \<times> nat) list option" where
  "get_dict h r = (case lookup h r of Some (Dict d) \<Rightarrow> Some d | _ \<Rightarrow> None)"

text \<open>\<open>d[k] = v\<close>: the value of an existing key is replaced, a new key is appended.\<close>

fun dict_set :: "int \<Rightarrow> nat \<Rightarrow> (int \<times> nat) list \<Rightarrow> (int \<times> nat) list" where
  "dict_set k v [] = [(k, v)]"
| "dict_set k v ((k', v') # d) = (if k = k' then (k, v) # d else (k', v') # dict_set k v d)"

text \<open>The tables a dictionary of tables refers to.\<close>

fun read_tables :: "('i, 's) heap \<Rightarrow> (int \<times> nat) list \<Rightarrow> (int \<times> 's matrix) list option" where
  "read_tables h [] = Some []"
| "read_tables h ((age, t) # d) = do {
     tbl \<leftarrow> get_table h t;
     rest \<leftarrow> read_tables h d;
     Some ((age, tbl) # rest)
   }"

subsection \<open>compute_age_months\<close>

text \<open>\<open>df = df.copy()\<close>, then \<open>df['age_months'] = ...\<close> on the copy.\<close>

definition compute_age_months_h ::
  "('i, 's) heap \<Rightarrow> nat \<Rightarrow> (('i, 's) heap \<times> nat) option" where
  "compute_age_months_h h df0 = do {
     f0 \<leftarrow> get_frame h df0;
     let (h1, df) = alloc h (Frame f0);
     f \<leftarrow> get_frame h1 df;
     let h2 = store h1 df (Frame (f\<lparr>age_months := Some (map age_of (rows f))\<rparr>));
     Some (h2, df)
   }"

text \<open>\<open>if age_col not in df.columns: df = compute_age_months(df)\<close>\<close>

definition with_age ::
  "('i, 's) heap \<Rightarrow> nat \<Rightarrow> (('i, 's) heap \<times> nat) option" where
  "with_age h df = do {
     f \<leftarrow> get_frame h df;
     if age_months f = None then compute_age_months_h h df else Some (h, df)
   }"

subsection \<open>build_vintage_pivot\<close>

text \<open>
  The pivot is a new object; the two assignments of names write into it.
\<close>

definition build_vintage_pivot_h ::
  "('i, 's::linorder) heap \<Rightarrow> nat \<Rightarrow> (('i, 's) heap \<times> nat) option" where
  "build_vintage_pivot_h h df0 = do {
     (h1, df) \<leftarrow> with_age h df0;
     f \<leftarrow> get_frame h1 df;
     let grouped = groupby_sum (vintage_records f);
     let (h2, pivot) = alloc h1 (PivotTable (pivot_table grouped 0));
     p \<leftarrow> get_pivot h2 pivot;
     let h3 = store h2 pivot (PivotTable (p\<lparr>index_names := [''origination_date'', ''age_months'']\<rparr>));
     p' \<leftarrow> get_pivot h3 pivot;
     let h4 = store h3 pivot (PivotTable (p'\<lparr>columns_name := ''delinquency_bucket''\<rparr>));
     Some (h4, pivot)
   }"

subsection \<open>compute_empirical_transitions\<close>

text \<open>
  The selection of the three columns, its copy and the sorted table \<open>df2\<close> are new
  objects; \<open>df2['next_age'] = ...\<close> writes into \<open>df2\<close>. Every \<open>crosstab\<close> is a new table,
  and \<open>trans[int(age)] = table\<close> writes into the new dictionary \<open>trans\<close>.
\<close>

fun crosstab_loop ::
  "(int \<times> 's matrix) list \<Rightarrow> ('i, 's) heap \<Rightarrow> nat \<Rightarrow> ('i, 's) heap option" where
  "crosstab_loop [] h trans_dict = Some h"
| "crosstab_loop ((age, tbl) # rest) h trans_dict = do {
     let (h1, table) = alloc h (Table tbl);
     d \<leftarrow> get_dict h1 trans_dict;
     let h2 = store h1 trans_dict (Dict (dict_set age table d));
     crosstab_loop rest h2 trans_dict
   }"

definition compute_empirical_transitions_h ::
  "('i::linorder, 's::linorder) heap \<Rightarrow> nat \<Rightarrow> (('i, 's) heap \<times> nat) option" where
  "compute_empirical_transitions_h h df0 = do {
     (h1, df) \<leftarrow> with_age h df0;
     f \<leftarrow> get_frame h1 df;
     let (h2, sel) = alloc h1 (Selection (selection f) None);
     (xs, n) \<leftarrow> get_selection h2 sel;
     let (h3, cp) = alloc h2 (Selection xs n);
     (ys, n') \<leftarrow> get_selection h3 cp;
     let (h4, df2) = alloc h3 (Selection (sort_values ys) n');
     (zs, n'') \<leftarrow> get_selection h4 df2;
     let h5 = store h4 df2 (Selection zs (Some (next_ages zs)));
     (rs, next_age) \<leftarrow> get_selection h5 df2;
     na \<leftarrow> next_age;
     let (h6, trans_dict) = alloc h5 (Dict []);
     h7 \<leftarrow> crosstab_loop (transition_tables rs na) h6 trans_dict;
     Some (h7, trans_dict)
   }"

subsection \<open>row_normalize, laplace_smoothing, ensure_probability_matrix\<close>

text \<open>
  \<open>df.copy()\<close> and \<open>astype(float)\<close> each make a new table; the two masked assignments
  write into the second one.
\<close>

definition row_normalize_h ::
  "('i, 's) heap \<Rightarrow> nat \<Rightarrow> (('i, 's) heap \<times> nat) option" where
  "row_normalize_h h df0 = do {
     m0 \<leftarrow> get_table h df0;
     let (h1, c) = alloc h (Table m0);
     m1 \<leftarrow> get_table h1 c;
     let (h2, df) = alloc h1 (Table m1);
     m \<leftarrow> get_table h2 df;
     let rsums = row_sums m;
     let h3 = store h2 df
           (Table (m\<lparr>cells := map (\<lambda>(row, s). if s \<noteq> 0 then map (\<lambda>x. x / s) row else row)
                                 (zip (cells m) rsums)\<rparr>));
     m' \<leftarrow> get_table h3 df;
     let h4 = store h3 df
           (Table (m'\<lparr>cells := map (\<lambda>(row, s). if \<not> s \<noteq> 0 then map (\<lambda>_. 0) row else row)
                                  (zip (cells m') rsums)\<rparr>));
     Some (h4, df)
   }"

definition laplace_smoothing_h ::
  "('i, 's) heap \<Rightarrow> nat \<Rightarrow> real \<Rightarrow> (('i, 's) heap \<times> nat) option" where
  "laplace_smoothing_h h counts alpha = do {
     m \<leftarrow> get_table h counts;
     let (h1, counts_s) = alloc h (Table (add_scalar m alpha));
     row_normalize_h h1 counts_s
   }"

definition ensure_probability_matrix_h ::
  "('i, 's) heap \<Rightarrow> nat \<Rightarrow> (('i, 's) heap \<times> nat) option" where
  "ensure_probability_matrix_h h df0 = do {
     m \<leftarrow> get_table h df0;
     let (h1, df) = alloc h (Table (clip_lower m 0));
     row_normalize_h h1 df
   }"

subsection \<open>shrink_toward_pool\<close>

text \<open>
  The set \<open>all_states\<close> is a new object that the first loop updates; \<open>sorted\<close> makes a
  list of it. \<open>pooled\<close> is a new table that \<open>pooled += tbl2\<close> updates; every \<open>reindex\<close>,
  every product with a scalar and every sum is a new table; \<open>out[age] = shrunk\<close> writes
  into the new dictionary \<open>out\<close>.
\<close>

fun states_loop ::
  "(int \<times> nat) list \<Rightarrow> ('i, 's) heap \<Rightarrow> nat \<Rightarrow> ('i, 's) heap option" where
  "states_loop [] h all_states_set = Some h"
| "states_loop ((age, t) # rest) h all_states_set = do {
     tbl \<leftarrow> get_table h t;
     s \<leftarrow> get_states h all_states_set;
     let h1 = store h all_states_set (StateSet (remdups (s @ index tbl)));
     s' \<leftarrow> get_states h1 all_states_set;
     let h2 = store h1 all_states_set (StateSet (remdups (s' @ columns tbl)));
     states_loop rest h2 all_states_set
   }"

definition reindex_h ::
  "('i, 's) heap \<Rightarrow> nat \<Rightarrow> 's list \<Rightarrow> (('i, 's) heap \<times> nat) option" where
  "reindex_h h t S = do {
     tbl \<leftarrow> get_table h t;
     case reindex tbl S S 0 of
       Inl e \<Rightarrow> None
     | Inr tbl2 \<Rightarrow> Some (alloc h (Table tbl2))
   }"

fun pool_loop_h ::
  "'s list \<Rightarrow> (int \<times> nat) list \<Rightarrow> ('i, 's) heap \<Rightarrow> nat \<Rightarrow> ('i, 's) heap option" where
  "pool_loop_h S [] h pooled = Some h"
| "pool_loop_h S ((age, t) # rest) h pooled = do {
     (h1, tbl2) \<leftarrow> reindex_h h t S;
     p \<leftarrow> get_table h1 pooled;
     m2 \<leftarrow> get_table h1 tbl2;
     let h2 = store h1 pooled (Table (mat_add p m2));
     pool_loop_h S rest h2 pooled
   }"

fun shrink_loop_h ::
  "'s list \<Rightarrow> real \<Rightarrow> nat \<Rightarrow> (int \<times> nat) list \<Rightarrow> ('i, 's) heap \<Rightarrow> nat
     \<Rightarrow> ('i, 's) heap option" where
  "shrink_loop_h S w pp [] h out = Some h"
| "shrink_loop_h S w pp ((age, t) # rest) h out = do {
     (h1, tbl2) \<leftarrow> reindex_h h t S;
     (h2, probs) \<leftarrow> row_normalize_h h1 tbl2;
     P \<leftarrow> get_table h2 probs;
     let (h3, a) = alloc h2 (Table (scale (1 - w) P));
     Q \<leftarrow> get_table h3 pp;
     let (h4, b) = alloc h3 (Table (scale w Q));
     A \<leftarrow> get_table h4 a;
     B \<leftarrow> get_table h4 b;
     let (h5, shrunk) = alloc h4 (Table (mat_add A B));
     d \<leftarrow> get_dict h5 out;
     let h6 = store h5 out (Dict (dict_set age shrunk d));
     shrink_loop_h S w pp rest h6 out
   }"

definition shrink_toward_pool_h ::
  "('i, 's::linorder) heap \<Rightarrow> nat \<Rightarrow> real \<Rightarrow> (('i, 's) heap \<times> nat) option" where
  "shrink_toward_pool_h h age_tables pool_weight = do {
     d \<leftarrow> get_dict h age_tables;
     let (h0, all_states_set) = alloc h (StateSet []);
     h0' \<leftarrow> states_loop d h0 all_states_set;
     s \<leftarrow> get_states h0' all_states_set;
     let S = sort s;
     let (h1, pooled) = alloc h0' (Table (zeros S));
     h2 \<leftarrow> pool_loop_h S d h1 pooled;
     (h3, pp) \<leftarrow> row_normalize_h h2 pooled;
     let (h4, out) = alloc h3 (Dict []);
     h5 \<leftarrow> shrink_loop_h S pool_weight pp d h4 out;
     Some (h5, out)
   }"

subsection \<open>Unchanged inputs and new results\<close>

text \<open>
  Every object of the store \<open>h\<close> is in \<open>h'\<close>, at its reference, as it was; a reference is
  new when \<open>h\<close> has no object at it; all tables of a dictionary are new.
\<close>

definition unchanged :: "('i, 's) heap \<Rightarrow> ('i, 's) heap \<Rightarrow> bool" where
  "unchanged h h' \<longleftrightarrow> length h \<le> length h' \<and> take (length h) h' = h"

definition fresh :: "('i, 's) heap \<Rightarrow> nat \<Rightarrow> bool" where
  "fresh h r \<longleftrightarrow> length h \<le> r"

definition all_fresh :: "('i, 's) heap \<Rightarrow> (int \<times> nat) list \<Rightarrow> bool" where
  "all_fresh h d \<longleftrightarrow> list_all (\<lambda>(a, t). fresh h t) d"

text \<open>
  The dictionary after a loop that stores, for each item in turn, a table allocated at
  \<open>base\<close>, \<open>base + step\<close>, ...; and the objects one round of the second loop of
  \<open>shrink_toward_pool\<close> allocates.
\<close>

fun dict_add_all :: "nat \<Rightarrow> nat \<Rightarrow> (int \<times> 'a) list \<Rightarrow> (int \<times> nat) list \<Rightarrow> (int \<times> nat) list" where
  "dict_add_all base step [] d = d"
| "dict_add_all base step ((age, x) # rest) d =
     dict_add_all (base + step) step rest (dict_set age base d)"

definition block :: "'s list \<Rightarrow> real \<Rightarrow> 's matrix \<Rightarrow> 's matrix \<Rightarrow> ('i, 's) obj list" where
  "block S w Q tbl =
     (let r = reindex_mat tbl S S 0; p = row_normalize r
      in [Table r, Table r, Table p, Table (scale (1 - w) p), Table (scale w Q),
          Table (blend w p Q)])"

text \<open>
  The dictionary built from an empty one when all keys differ, and the set of states
  after the first loop of \<open>shrink_toward_pool\<close>.
\<close>

fun numbered :: "nat \<Rightarrow> nat \<Rightarrow> (int \<times> 'a) list \<Rightarrow> (int \<times> nat) list" where
  "numbered base step [] = []"
| "numbered base step ((age, x) # rest) = (age, base) # numbered (base + step) step rest"

definition collect_states :: "(int \<times> 's matrix) list \<Rightarrow> 's list \<Rightarrow> 's list" where
  "collect_states tabs s0 =
     fold (\<lambda>(age, tbl) s. remdups (remdups (s @ index tbl) @ columns tbl)) tabs s0"

text \<open>
  A store with the two example tables, the dictionary of them, and the example book.
\<close>

definition example_heap :: "(string, string) heap" where
  "example_heap =
     [Table example_age0, Table example_age1, Dict [(0, 0), (1, 1)], Frame example_book]"

section \<open>Properties of normalisation\<close>

lemma sum_list_divide: "sum_list (map (\<lambda>x. x / s) row) = sum_list row / (s::real)"
  by (induction row) (simp_all add: add_divide_distrib)

lemma length_normalize_row [simp]: "length (normalize_row row) = length row"
  by (simp add: normalize_row_def Let_def)

lemma normalize_row_nonzero:
  "sum_list row \<noteq> 0 \<Longrightarrow> normalize_row row = map (\<lambda>x. x / sum_list row) row"
  by (simp add: normalize_row_def)

lemma normalize_row_zero:
  "sum_list row = 0 \<Longrightarrow> normalize_row row = replicate (length row) 0"
  by (simp add: normalize_row_def map_replicate_const)

lemma sum_normalize_row_nonzero: "sum_list row \<noteq> 0 \<Longrightarrow> sum_list (normalize_row row) = 1"
  by (simp add: normalize_row_nonzero sum_list_divide)

lemma sum_normalize_row_zero: "sum_list row = 0 \<Longrightarrow> sum_list (normalize_row row) = 0"
  by (simp add: normalize_row_def)

lemma all_zero_sum: "list_all (\<lambda>x. x = 0) row \<Longrightarrow> sum_list row = (0::real)"
  by (induction row) simp_all

lemma all_zero_replicate: "list_all (\<lambda>x. x = 0) row \<Longrightarrow> replicate (length row) (0::real) = row"
  by (induction row) simp_all

lemma normalize_row_fixed:
  assumes "sum_list row = 1 \<or> list_all (\<lambda>x. x = 0) row"
  shows "normalize_row row = row"
  using assms
proof
  assume "sum_list row = 1"
  then show ?thesis by (simp add: normalize_row_def)
next
  assume z: "list_all (\<lambda>x. x = 0) row"
  then have "sum_list row = 0" by (rule all_zero_sum)
  then have "normalize_row row = replicate (length row) 0" by (rule normalize_row_zero)
  with z show ?thesis by (simp add: all_zero_replicate)
qed

lemma index_row_normalize [simp]: "index (row_normalize df) = index df"
  by (simp add: row_normalize_def)

lemma columns_row_normalize [simp]: "columns (row_normalize df) = columns df"
  by (simp add: row_normalize_def)

lemma cells_row_normalize: "cells (row_normalize df) = map normalize_row (cells df)"
  by (simp add: row_normalize_def)

lemma wf_row_normalize: "wf_matrix df \<Longrightarrow> wf_matrix (row_normalize df)"
  by (simp add: wf_matrix_def cells_row_normalize list_all_iff)

text \<open>
  Claim C2. For every matrix, \<open>row_normalize\<close> keeps the row labels, the column labels
  and the shape (the number of rows and the length of every row); a row whose sum is
  nonzero becomes the input row divided by that sum, and then sums to one; a row whose
  sum is zero becomes all zero.
\<close>

theorem row_normalize_spec:
  "index (row_normalize df) = index df \<and>
   columns (row_normalize df) = columns df \<and>
   length (cells (row_normalize df)) = length (cells df) \<and>
   (\<forall>i < length (cells df).
      length (cells (row_normalize df) ! i) = length (cells df ! i) \<and>
      (sum_list (cells df ! i) \<noteq> 0 \<longrightarrow>
         cells (row_normalize df) ! i = map (\<lambda>x. x / sum_list (cells df ! i)) (cells df ! i) \<and>
         sum_list (cells (row_normalize df) ! i) = 1) \<and>
      (sum_list (cells df ! i) = 0 \<longrightarrow>
         cells (row_normalize df) ! i = replicate (length (cells df ! i)) 0))"
proof -
  have "length (cells (row_normalize df) ! i) = length (cells df ! i) \<and>
      (sum_list (cells df ! i) \<noteq> 0 \<longrightarrow>
         cells (row_normalize df) ! i = map (\<lambda>x. x / sum_list (cells df ! i)) (cells df ! i) \<and>
         sum_list (cells (row_normalize df) ! i) = 1) \<and>
      (sum_list (cells df ! i) = 0 \<longrightarrow>
         cells (row_normalize df) ! i = replicate (length (cells df ! i)) 0)"
    if "i < length (cells df)" for i
  proof -
    from that have eq: "cells (row_normalize df) ! i = normalize_row (cells df ! i)"
      by (simp add: cells_row_normalize)
    show ?thesis
      unfolding eq
      using normalize_row_nonzero [of "cells df ! i"] normalize_row_zero [of "cells df ! i"]
        sum_normalize_row_nonzero [of "cells df ! i"]
      by simp
  qed
  then show ?thesis
    by (simp add: cells_row_normalize sum_list_divide)
qed

theorem row_normalize_spec_witness:
  "index (row_normalize \<lparr>index = [''A'', ''B''], columns = [''A'', ''B''],
                          cells = [[8, 2], [0, 0]]\<rparr>) = [''A'', ''B''] \<and>
   cells (row_normalize \<lparr>index = [''A'', ''B''], columns = [''A'', ''B''],
                          cells = [[8, 2], [0, 0]]\<rparr>) ! 0 = [4 / 5, 1 / 5] \<and>
   sum_list (cells (row_normalize \<lparr>index = [''A'', ''B''], columns = [''A'', ''B''],
                          cells = [[8, 2], [0, 0]]\<rparr>) ! 0) = 1 \<and>
   cells (row_normalize \<lparr>index = [''A'', ''B''], columns = [''A'', ''B''],
                          cells = [[8, 2], [0, 0]]\<rparr>) ! 1 = [0, 0]"
proof -
  let ?m = "\<lparr>index = [''A'', ''B''], columns = [''A'', ''B''], cells = [[8, 2], [0, 0::real]]\<rparr>"
  note t = row_normalize_spec [of ?m]
  note rws = t [THEN conjunct2, THEN conjunct2, THEN conjunct2]
  have r0: "cells (row_normalize ?m) ! 0 = [4 / 5, 1 / 5] \<and> sum_list (cells (row_normalize ?m) ! 0) = 1"
    using rws [THEN spec, of 0] by simp
  have r1: "cells (row_normalize ?m) ! 1 = [0, 0]"
    using rws [THEN spec, of 1] by simp
  from r0 r1 t [THEN conjunct1] show ?thesis by simp
qed

text \<open>
  Claim C6. With smoothing constant zero, \<open>laplace_smoothing\<close> returns the same matrix
  as \<open>row_normalize\<close> applied to the raw counts.
\<close>

theorem laplace_smoothing_zero: "laplace_smoothing counts 0 = row_normalize counts"
  by (simp add: laplace_smoothing_def add_scalar_def)

text \<open>
  Claim C8. \<open>row_normalize\<close> returns a probability matrix (every row sums to one or is
  all zero) unchanged.
\<close>

theorem row_normalize_idempotent:
  "is_probability_matrix m \<Longrightarrow> row_normalize m = m"
proof -
  assume "is_probability_matrix m"
  then have rws: "list_all (\<lambda>row. sum_list row = 1 \<or> list_all (\<lambda>x. x = 0) row) (cells m)"
    by (simp add: is_probability_matrix_def)
  have "\<forall>row \<in> set (cells m). normalize_row row = row"
  proof
    fix row assume "row \<in> set (cells m)"
    with rws have "sum_list row = 1 \<or> list_all (\<lambda>x. x = 0) row"
      by (simp add: list_all_iff)
    then show "normalize_row row = row" by (rule normalize_row_fixed)
  qed
  then have "map normalize_row (cells m) = cells m"
    by (simp add: map_idI)
  then show ?thesis
    by (simp add: row_normalize_def)
qed

theorem row_normalize_idempotent_witness:
  "is_probability_matrix \<lparr>index = [''A'', ''B''], columns = [''A'', ''B''],
                           cells = [[3 / 4, 1 / 4], [0, 0]]\<rparr> \<and>
   row_normalize \<lparr>index = [''A'', ''B''], columns = [''A'', ''B''],
                   cells = [[3 / 4, 1 / 4], [0, 0]]\<rparr> =
     \<lparr>index = [''A'', ''B''], columns = [''A'', ''B''], cells = [[3 / 4, 1 / 4], [0, 0]]\<rparr>"
proof -
  let ?m = "\<lparr>index = [''A'', ''B''], columns = [''A'', ''B''],
              cells = [[3 / 4, 1 / 4], [0, 0::real]]\<rparr>"
  have h: "is_probability_matrix ?m"
    by (simp add: is_probability_matrix_def)
  from h row_normalize_idempotent [OF h] show ?thesis by simp
qed

text \<open>
  The worked example of add-one smoothing: the rows [8, 2] and [1, 9] become
  [3/4, 1/4] and [1/6, 5/6].
\<close>

lemma laplace_smoothing_example:
  "laplace_smoothing example_age0 1 =
     \<lparr>index = [''A'', ''B''], columns = [''A'', ''B''], cells = [[3 / 4, 1 / 4], [1 / 6, 5 / 6]]\<rparr>"
  by (simp add: laplace_smoothing_def add_scalar_def row_normalize_def normalize_row_def
      example_age0_def)

section \<open>Properties of shrinkage\<close>

lemma rectD: "rect n m css \<Longrightarrow> i < n \<Longrightarrow> length (css ! i) = m"
  by (simp add: rect_def list_all_length)

lemma rect_reindex_mat: "rect (length rlabels) (length clabels) (cells (reindex_mat tbl rlabels clabels f))"
  by (simp add: rect_def reindex_mat_def list_all_iff)

lemma rect_zeros: "rect (length ls) (length ls) (cells (zeros ls))"
  by (simp add: rect_def zeros_def list_all_iff)

lemma rect_map2:
  assumes "rect n m A" "rect n m B"
  shows "rect n m (map2 (map2 f) A B)"
proof -
  have "length (map2 (map2 f) A B) = n"
    using assms by (simp add: rect_def)
  moreover have "length (map2 (map2 f) A B ! i) = m" if "i < n" for i
    using that assms by (simp add: rect_def list_all_length)
  ultimately show ?thesis
    by (simp add: rect_def list_all_length)
qed

lemma rect_mat_add: "rect n m (cells a) \<Longrightarrow> rect n m (cells b) \<Longrightarrow> rect n m (cells (mat_add a b))"
  by (simp add: mat_add_def rect_map2)

lemma rect_normalize: "rect n m css \<Longrightarrow> rect n m (map normalize_row css)"
  by (simp add: rect_def list_all_iff)

lemma rect_row_normalize: "rect n m (cells a) \<Longrightarrow> rect n m (cells (row_normalize a))"
  by (simp add: cells_row_normalize rect_normalize)

lemma rect_fold:
  "rect (length S) (length S) (cells p) \<Longrightarrow>
   rect (length S) (length S)
     (cells (fold (\<lambda>(age, tbl) pooled. mat_add pooled (reindex_mat tbl S S 0)) tabs p))"
proof (induction tabs arbitrary: p)
  case Nil
  then show ?case by simp
next
  case (Cons x tabs)
  obtain age tbl where x: "x = (age, tbl)" by (cases x)
  have "rect (length S) (length S) (cells (mat_add p (reindex_mat tbl S S 0)))"
    using Cons.prems rect_reindex_mat by (rule rect_mat_add)
  from Cons.IH [OF this] show ?case by (simp add: x)
qed

lemma rect_pooled_counts:
  "rect (length (all_states tabs)) (length (all_states tabs)) (cells (pooled_counts tabs))"
  unfolding pooled_counts_def Let_def by (rule rect_fold) (rule rect_zeros)

lemma labels_fold:
  "index (fold (\<lambda>(age, tbl) pooled. mat_add pooled (reindex_mat tbl S S 0)) tabs p) = index p \<and>
   columns (fold (\<lambda>(age, tbl) pooled. mat_add pooled (reindex_mat tbl S S 0)) tabs p) = columns p"
  by (induction tabs arbitrary: p) (auto simp: mat_add_def)

lemma labels_pooled_counts:
  "index (pooled_counts tabs) = all_states tabs \<and> columns (pooled_counts tabs) = all_states tabs"
  by (simp add: pooled_counts_def Let_def labels_fold zeros_def)

text \<open>
  A cell of the pooled counts is the sum, over the ages, of the cell of these labels,
  with zero for a table without them.
\<close>

lemma cell_mat_add:
  assumes "rect n m (cells a)" "rect n m (cells b)" "i < n" "j < m"
  shows "cells (mat_add a b) ! i ! j = cells a ! i ! j + cells b ! i ! j"
  using assms by (simp add: mat_add_def rect_def list_all_length)

lemma cell_reindex_mat:
  "i < length rlabels \<Longrightarrow> j < length clabels \<Longrightarrow>
   cells (reindex_mat tbl rlabels clabels f) ! i ! j = cell_at tbl (rlabels ! i) (clabels ! j) f"
  by (simp add: reindex_mat_def)

lemma cell_fold:
  assumes "rect (length S) (length S) (cells p)" "i < length S" "j < length S"
  shows "cells (fold (\<lambda>(age, tbl) pooled. mat_add pooled (reindex_mat tbl S S 0)) tabs p) ! i ! j =
           cells p ! i ! j + (\<Sum>(age, tbl)\<leftarrow>tabs. cell_at tbl (S ! i) (S ! j) 0)"
  using assms(1)
proof (induction tabs arbitrary: p)
  case Nil
  then show ?case by simp
next
  case (Cons x tabs)
  obtain age tbl where x: "x = (age, tbl)" by (cases x)
  let ?p = "mat_add p (reindex_mat tbl S S 0)"
  have r: "rect (length S) (length S) (cells ?p)"
    using Cons.prems rect_reindex_mat by (rule rect_mat_add)
  have "cells ?p ! i ! j = cells p ! i ! j + cell_at tbl (S ! i) (S ! j) 0"
    using cell_mat_add [OF Cons.prems rect_reindex_mat assms(2,3)] assms(2,3)
    by (simp add: cell_reindex_mat)
  with Cons.IH [OF r] show ?case
    by (simp add: x)
qed

lemma pooled_counts_cell:
  assumes "i < length (all_states tabs)" "j < length (all_states tabs)"
  shows "cells (pooled_counts tabs) ! i ! j =
           (\<Sum>(age, tbl)\<leftarrow>tabs. cell_at tbl (all_states tabs ! i) (all_states tabs ! j) 0)"
proof -
  have "cells (zeros (all_states tabs)) ! i ! j = 0"
    using assms by (simp add: zeros_def)
  with cell_fold [OF rect_zeros assms, of tabs] show ?thesis
    by (simp add: pooled_counts_def Let_def)
qed

subsection \<open>The loops return\<close>

lemma reindex_ok: "labels_distinct tbl \<Longrightarrow> reindex tbl rlabels clabels f = Inr (reindex_mat tbl rlabels clabels f)"
  by (simp add: reindex_def labels_distinct_def)

lemma pool_loop_ok:
  "list_all (\<lambda>(age, tbl). labels_distinct tbl) tabs \<Longrightarrow>
   pool_loop S tabs p =
     Inr (fold (\<lambda>(age, tbl) pooled. mat_add pooled (reindex_mat tbl S S 0)) tabs p)"
proof (induction tabs arbitrary: p)
  case Nil
  then show ?case by simp
next
  case (Cons x tabs)
  obtain age tbl where x: "x = (age, tbl)" by (cases x)
  from Cons.prems have d: "labels_distinct tbl" and rest: "list_all (\<lambda>(age, tbl). labels_distinct tbl) tabs"
    by (simp_all add: x)
  show ?case
    by (simp add: x reindex_ok [OF d] Cons.IH [OF rest])
qed

lemma shrink_loop_ok:
  "list_all (\<lambda>(age, tbl). labels_distinct tbl) tabs \<Longrightarrow>
   shrink_loop S w pp tabs out =
     Inr (out @ map (\<lambda>(age, tbl). (age, blend w (row_normalize (reindex_mat tbl S S 0)) pp)) tabs)"
proof (induction tabs arbitrary: out)
  case Nil
  then show ?case by simp
next
  case (Cons x tabs)
  obtain age tbl where x: "x = (age, tbl)" by (cases x)
  from Cons.prems have d: "labels_distinct tbl" and rest: "list_all (\<lambda>(age, tbl). labels_distinct tbl) tabs"
    by (simp_all add: x)
  show ?case
    by (simp add: x reindex_ok [OF d] Cons.IH [OF rest] blend_def)
qed

lemma shrink_toward_pool_ok:
  assumes "list_all (\<lambda>(age, tbl). labels_distinct tbl) tabs"
  shows "shrink_toward_pool tabs w =
     Inr (map (\<lambda>(age, tbl). (age, blend w (age_probs tabs tbl) (pooled_probs tabs))) tabs)"
  by (simp add: shrink_toward_pool_def Let_def pool_loop_ok [OF assms] shrink_loop_ok [OF assms]
      age_probs_def pooled_probs_def pooled_counts_def)

subsection \<open>Blending rows\<close>

lemma map2_add_scaled_1_0:
  "length ys = length xs \<Longrightarrow> map2 (+) (map (\<lambda>x. (1::real) * x) xs) (map (\<lambda>y. 0 * y) ys) = xs"
  by (induction xs ys rule: list_induct2') simp_all

lemma map2_add_scaled_0_1:
  "length ys = length xs \<Longrightarrow> map2 (+) (map (\<lambda>x. (0::real) * x) xs) (map (\<lambda>y. 1 * y) ys) = ys"
  by (induction xs ys rule: list_induct2') simp_all

lemma sum_list_map2_add:
  "length ys = length xs \<Longrightarrow> sum_list (map2 (+) xs ys) = sum_list xs + (sum_list ys :: real)"
  by (induction xs ys rule: list_induct2') simp_all

lemma cells_blend:
  "cells (blend w P Q) =
     map2 (map2 (+)) (map (map (\<lambda>x. (1 - w) * x)) (cells P)) (map (map (\<lambda>x. w * x)) (cells Q))"
  by (simp add: blend_def mat_add_def scale_def)

lemma labels_blend: "index (blend w P Q) = index P \<and> columns (blend w P Q) = columns P"
  by (simp add: blend_def mat_add_def scale_def)

lemma blend_row:
  assumes "rect n m (cells P)" "rect n m (cells Q)" "i < n"
  shows "cells (blend w P Q) ! i =
           map2 (+) (map (\<lambda>x. (1 - w) * x) (cells P ! i)) (map (\<lambda>x. w * x) (cells Q ! i))"
  using assms by (simp add: cells_blend rect_def)

lemma blend_0:
  assumes "rect n m (cells P)" "rect n m (cells Q)"
  shows "blend 0 P Q = P"
proof -
  have len: "length (cells (blend 0 P Q)) = length (cells P)"
    using assms by (simp add: cells_blend rect_def)
  have "cells (blend 0 P Q) ! i = cells P ! i" if "i < length (cells P)" for i
  proof -
    from that assms have i: "i < n" by (simp add: rect_def)
    have "length (cells Q ! i) = length (cells P ! i)"
      using rectD [OF assms(1) i] rectD [OF assms(2) i] by simp
    then show ?thesis
      using blend_row [OF assms i, of 0] map2_add_scaled_1_0 [of "cells Q ! i" "cells P ! i"]
      by simp
  qed
  with len have "cells (blend 0 P Q) = cells P"
    by (simp add: nth_equalityI)
  then show ?thesis
    by (simp add: blend_def mat_add_def scale_def)
qed

lemma blend_1:
  assumes "rect n m (cells P)" "rect n m (cells Q)"
    and "index P = index Q" "columns P = columns Q"
  shows "blend 1 P Q = (Q :: 's matrix)"
proof -
  have len: "length (cells (blend 1 P Q)) = length (cells Q)"
    using assms by (simp add: cells_blend rect_def)
  have "cells (blend 1 P Q) ! i = cells Q ! i" if "i < length (cells Q)" for i
  proof -
    from that assms have i: "i < n" by (simp add: rect_def)
    have "length (cells Q ! i) = length (cells P ! i)"
      using rectD [OF assms(1) i] rectD [OF assms(2) i] by simp
    then show ?thesis
      using blend_row [OF assms(1,2) i, of 1] map2_add_scaled_0_1 [of "cells Q ! i" "cells P ! i"]
      by simp
  qed
  with len have "cells (blend 1 P Q) = cells Q"
    by (simp add: nth_equalityI)
  with assms(3,4) show ?thesis
    by (simp add: blend_def mat_add_def scale_def)
qed

lemma rect_age_probs:
  "rect (length (all_states tabs)) (length (all_states tabs)) (cells (age_probs tabs tbl))"
  unfolding age_probs_def Let_def by (rule rect_row_normalize) (rule rect_reindex_mat)

lemma rect_pooled_probs:
  "rect (length (all_states tabs)) (length (all_states tabs)) (cells (pooled_probs tabs))"
  unfolding pooled_probs_def by (rule rect_row_normalize) (rule rect_pooled_counts)

lemma labels_age_probs:
  "index (age_probs tabs tbl) = all_states tabs \<and> columns (age_probs tabs tbl) = all_states tabs"
  by (simp add: age_probs_def Let_def reindex_mat_def)

lemma labels_pooled_probs:
  "index (pooled_probs tabs) = all_states tabs \<and> columns (pooled_probs tabs) = all_states tabs"
  by (simp add: pooled_probs_def labels_pooled_counts)

text \<open>
  Claim C7. On tables that carry each label once per axis, \<open>shrink_toward_pool\<close> returns
  a dictionary with the input's ages in the input's order; with pool weight 0 the table
  of every age is that age's probability matrix (the row-normalised reindexed counts),
  and with pool weight 1 the table of every age is the pooled probability matrix.
\<close>

theorem shrink_toward_pool_extreme_weights:
  assumes "list_all (\<lambda>(age, tbl). labels_distinct tbl) age_tables"
  shows "shrink_toward_pool age_tables 0 =
           Inr (map (\<lambda>(age, tbl). (age, age_probs age_tables tbl)) age_tables) \<and>
         shrink_toward_pool age_tables 1 =
           Inr (map (\<lambda>(age, tbl). (age, pooled_probs age_tables)) age_tables)"
proof -
  have b0: "blend 0 (age_probs age_tables tbl) (pooled_probs age_tables) = age_probs age_tables tbl"
    for tbl
    using rect_age_probs rect_pooled_probs by (rule blend_0)
  have b1: "blend 1 (age_probs age_tables tbl) (pooled_probs age_tables) = pooled_probs age_tables"
    for tbl
    using rect_age_probs rect_pooled_probs
    by (rule blend_1) (simp_all add: labels_age_probs labels_pooled_probs)
  show ?thesis
    by (simp add: shrink_toward_pool_ok [OF assms] b0 b1)
qed

lemma index_of_less: "index_of x xs = Some i \<Longrightarrow> i < length xs"
  by (induction xs arbitrary: i) (auto split: if_splits)

lemma cell_at_nonneg:
  assumes "wf_matrix tbl" "nonneg tbl"
  shows "0 \<le> cell_at tbl r c 0"
proof (cases "index_of r (index tbl)")
  case None
  then show ?thesis by (simp add: cell_at_def)
next
  case (Some i)
  show ?thesis
  proof (cases "index_of c (columns tbl)")
    case None
    then show ?thesis by (simp add: cell_at_def Some)
  next
    case (Some j)
    from \<open>index_of r (index tbl) = Some i\<close> assms(1) have i: "i < length (cells tbl)"
      by (simp add: wf_matrix_def index_of_less)
    with assms(1) have "length (cells tbl ! i) = length (columns tbl)"
      by (simp add: wf_matrix_def list_all_length)
    with Some have j: "j < length (cells tbl ! i)"
      by (simp add: index_of_less)
    from assms(2) i j have "0 \<le> cells tbl ! i ! j"
      by (simp add: nonneg_def list_all_length)
    then show ?thesis
      by (simp add: cell_at_def Some \<open>index_of r (index tbl) = Some i\<close>)
  qed
qed

lemma nonneg_reindex_mat:
  "wf_matrix tbl \<Longrightarrow> nonneg tbl \<Longrightarrow> nonneg (reindex_mat tbl rlabels clabels 0)"
  by (simp add: nonneg_def reindex_mat_def list_all_iff cell_at_nonneg)

lemma nonneg_zeros: "nonneg (zeros ls)"
  by (simp add: nonneg_def zeros_def list_all_iff)

lemma nonneg_map2_row:
  "list_all (\<lambda>x. 0 \<le> x) xs \<Longrightarrow> list_all (\<lambda>x. 0 \<le> x) ys \<Longrightarrow>
   list_all (\<lambda>x. (0::real) \<le> x) (map2 (+) xs ys)"
  by (simp add: list_all_length)

lemma nonneg_mat_add: "nonneg a \<Longrightarrow> nonneg b \<Longrightarrow> nonneg (mat_add a b)"
  by (simp add: nonneg_def mat_add_def list_all_length nonneg_map2_row)

lemma nonneg_fold:
  "list_all (\<lambda>(age, tbl). wf_matrix tbl \<and> nonneg tbl) tabs \<Longrightarrow> nonneg p \<Longrightarrow>
   nonneg (fold (\<lambda>(age, tbl) pooled. mat_add pooled (reindex_mat tbl S S 0)) tabs p)"
proof (induction tabs arbitrary: p)
  case Nil
  then show ?case by simp
next
  case (Cons x tabs)
  obtain age tbl where x: "x = (age, tbl)" by (cases x)
  from Cons.prems(1) have t: "wf_matrix tbl" "nonneg tbl"
    and rest: "list_all (\<lambda>(age, tbl). wf_matrix tbl \<and> nonneg tbl) tabs"
    by (simp_all add: x)
  have "nonneg (mat_add p (reindex_mat tbl S S 0))"
    using Cons.prems(2) nonneg_reindex_mat [OF t] by (rule nonneg_mat_add)
  from Cons.IH [OF rest this] show ?case by (simp add: x)
qed

lemma nonneg_pooled_counts:
  "list_all (\<lambda>(age, tbl). wf_matrix tbl \<and> nonneg tbl) tabs \<Longrightarrow> nonneg (pooled_counts tabs)"
  unfolding pooled_counts_def Let_def by (rule nonneg_fold) (simp_all add: nonneg_zeros)

lemma nonneg_row_sum_nonzero:
  assumes "list_all (\<lambda>x. (0::real) \<le> x) row" "\<not> list_all (\<lambda>x. x = 0) row"
  shows "sum_list row \<noteq> 0"
proof
  assume "sum_list row = 0"
  moreover from assms(1) have "\<forall>x \<in> set row. 0 \<le> x" by (simp add: list_all_iff)
  ultimately have "\<forall>x \<in> set row. x = 0"
    by (simp add: sum_list_nonneg_eq_0_iff)
  with assms(2) show False by (simp add: list_all_iff)
qed

lemma sum_list_scaled: "sum_list (map (\<lambda>x. k * x) xs) = k * (sum_list xs :: real)"
  by (induction xs) (simp_all add: distrib_left)

lemma wf_labels_distinct: "wf_matrix tbl \<Longrightarrow> labels_distinct tbl"
  by (simp add: wf_matrix_def labels_distinct_def)

text \<open>
  Claim C1. For well-formed count tables without negative cells and any pool weight
  \<open>w\<close>: when row \<open>i\<close> of the reindexed count table of the \<open>k\<close>-th age is all zero
  while row \<open>i\<close> of the pooled counts is not, \<open>shrink_toward_pool\<close> returns, and row
  \<open>i\<close> (the state \<open>all_states ! i\<close>) of the blended table of that age sums to \<open>w\<close>.
\<close>

theorem shrink_toward_pool_zero_row:
  assumes tabs: "list_all (\<lambda>(age, tbl). wf_matrix tbl \<and> nonneg tbl) age_tables"
    and k: "k < length age_tables"
    and i: "i < length (all_states age_tables)"
    and zero: "list_all (\<lambda>x. x = 0)
                 (cells (reindex_mat (snd (age_tables ! k))
                           (all_states age_tables) (all_states age_tables) 0) ! i)"
    and nz: "\<not> list_all (\<lambda>x. x = 0) (cells (pooled_counts age_tables) ! i)"
  shows "\<exists>out. shrink_toward_pool age_tables w = Inr out \<and>
           length out = length age_tables \<and>
           fst (out ! k) = fst (age_tables ! k) \<and>
           index (snd (out ! k)) ! i = all_states age_tables ! i \<and>
           sum_list (cells (snd (out ! k)) ! i) = w"
proof -
  let ?S = "all_states age_tables"
  let ?tbl = "snd (age_tables ! k)"
  let ?P = "age_probs age_tables ?tbl"
  let ?Q = "pooled_probs age_tables"
  let ?out = "map (\<lambda>(age, tbl). (age, blend w (age_probs age_tables tbl) ?Q)) age_tables"
  from tabs have "list_all (\<lambda>(age, tbl). labels_distinct tbl) age_tables"
    by (auto simp: list_all_iff wf_labels_distinct)
  then have ok: "shrink_toward_pool age_tables w = Inr ?out"
    by (rule shrink_toward_pool_ok)
  from k have outk: "?out ! k = (fst (age_tables ! k), blend w ?P ?Q)"
    by (simp add: case_prod_unfold)
  have row: "cells (blend w ?P ?Q) ! i =
      map2 (+) (map (\<lambda>x. (1 - w) * x) (cells ?P ! i)) (map (\<lambda>x. w * x) (cells ?Q ! i))"
    using rect_age_probs rect_pooled_probs i by (rule blend_row)
  have lenP: "length (cells ?P ! i) = length ?S"
    using rect_age_probs i by (rule rectD)
  have lenQ: "length (cells ?Q ! i) = length ?S"
    using rect_pooled_probs i by (rule rectD)
  have Pi: "cells ?P ! i = normalize_row (cells (reindex_mat ?tbl ?S ?S 0) ! i)"
    using i by (simp add: age_probs_def Let_def cells_row_normalize reindex_mat_def)
  have "sum_list (cells (reindex_mat ?tbl ?S ?S 0) ! i) = 0"
    using zero by (rule all_zero_sum)
  then have sumP: "sum_list (cells ?P ! i) = 0"
    unfolding Pi by (rule sum_normalize_row_zero)
  have leni: "i < length (cells (pooled_counts age_tables))"
    using rect_pooled_counts [of age_tables] i by (simp add: rect_def)
  then have Qi: "cells ?Q ! i = normalize_row (cells (pooled_counts age_tables) ! i)"
    by (simp add: pooled_probs_def cells_row_normalize)
  from nonneg_pooled_counts [OF tabs] leni
  have "list_all (\<lambda>x. 0 \<le> x) (cells (pooled_counts age_tables) ! i)"
    by (simp add: nonneg_def list_all_length)
  then have "sum_list (cells (pooled_counts age_tables) ! i) \<noteq> 0"
    using nz by (rule nonneg_row_sum_nonzero)
  then have sumQ: "sum_list (cells ?Q ! i) = 1"
    unfolding Qi by (rule sum_normalize_row_nonzero)
  have "sum_list (cells (blend w ?P ?Q) ! i) = (1 - w) * 0 + w * 1"
    unfolding row
    by (simp add: sum_list_map2_add lenP lenQ sum_list_scaled sumP sumQ)
  then have s: "sum_list (cells (snd (?out ! k)) ! i) = w"
    by (simp add: outk)
  have l: "index (snd (?out ! k)) ! i = ?S ! i"
    by (simp add: outk labels_blend labels_age_probs)
  from ok s l outk show ?thesis
    by simp
qed

lemma example_nth: "snd (example_tables ! 0) = example_age0" "snd (example_tables ! 1) = example_age1"
  "fst (example_tables ! 0) = 0" "fst (example_tables ! 1) = 1" "length example_tables = 2"
  by (simp_all add: example_tables_def)

lemma example_all_states: "all_states example_tables = [''A'', ''B'', ''C'']"
  by (simp add: all_states_def example_tables_def example_age0_def example_age1_def)

lemma example_wf: "list_all (\<lambda>(age, tbl). wf_matrix tbl \<and> nonneg tbl) example_tables"
  by (simp add: example_tables_def example_age0_def example_age1_def wf_matrix_def nonneg_def)

lemma example_reindex_1:
  "cells (reindex_mat example_age1 [''A'', ''B'', ''C''] [''A'', ''B'', ''C''] 0) =
     [[0, 0, 0], [1, 0, 3], [0, 0, 0]]"
  by (simp add: example_age1_def reindex_mat_def cell_at_def)

lemma example_pooled_counts:
  "cells (pooled_counts example_tables) = [[8, 2, 0], [2, 9, 3], [0, 0, 0]]"
  unfolding pooled_counts_def Let_def example_all_states
  by (simp add: example_tables_def example_age0_def example_age1_def reindex_mat_def cell_at_def zeros_def mat_add_def numeral_3_eq_3)

theorem shrink_toward_pool_zero_row_witness:
  "list_all (\<lambda>(age, tbl). wf_matrix tbl \<and> nonneg tbl) example_tables \<and>
   list_all (\<lambda>x. x = 0)
     (cells (reindex_mat (snd (example_tables ! 1))
               (all_states example_tables) (all_states example_tables) 0) ! 0) \<and>
   \<not> list_all (\<lambda>x. x = 0) (cells (pooled_counts example_tables) ! 0) \<and>
   (\<exists>out. shrink_toward_pool example_tables (1 / 2) = Inr out \<and>
      fst (out ! 1) = 1 \<and>
      index (snd (out ! 1)) ! 0 = ''A'' \<and>
      sum_list (cells (snd (out ! 1)) ! 0) = 1 / 2)"
proof -
  have k: "(1::nat) < length example_tables"
    by (simp add: example_nth)
  have i: "(0::nat) < length (all_states example_tables)"
    by (simp add: example_all_states)
  have zero: "list_all (\<lambda>x. x = 0)
     (cells (reindex_mat (snd (example_tables ! 1))
               (all_states example_tables) (all_states example_tables) 0) ! 0)"
    by (simp only: example_all_states example_nth example_reindex_1) simp
  have nz: "\<not> list_all (\<lambda>x. x = 0) (cells (pooled_counts example_tables) ! 0)"
    by (simp add: example_pooled_counts)
  note f = example_nth(4)
  from shrink_toward_pool_zero_row [OF example_wf k i zero nz, of "1 / 2"]
  have "\<exists>out. shrink_toward_pool example_tables (1 / 2) = Inr out \<and>
      fst (out ! 1) = 1 \<and>
      index (snd (out ! 1)) ! 0 = ''A'' \<and>
      sum_list (cells (snd (out ! 1)) ! 0) = 1 / 2"
    unfolding f example_all_states nth_Cons_0 by blast
  with example_wf zero nz show ?thesis by blast
qed

lemma example_distinct: "list_all (\<lambda>(age, tbl). labels_distinct tbl) example_tables"
  by (simp add: example_tables_def example_age0_def example_age1_def labels_distinct_def)

lemma example_age_probs_0:
  "age_probs example_tables example_age0 =
     \<lparr>index = [''A'', ''B'', ''C''], columns = [''A'', ''B'', ''C''],
      cells = [[4 / 5, 1 / 5, 0], [1 / 10, 9 / 10, 0], [0, 0, 0]]\<rparr>"
  unfolding age_probs_def Let_def example_all_states
  by (simp add: example_age0_def example_age1_def reindex_mat_def cell_at_def row_normalize_def normalize_row_def)

lemma example_age_probs_1:
  "age_probs example_tables example_age1 =
     \<lparr>index = [''A'', ''B'', ''C''], columns = [''A'', ''B'', ''C''],
      cells = [[0, 0, 0], [1 / 4, 0, 3 / 4], [0, 0, 0]]\<rparr>"
  unfolding age_probs_def Let_def example_all_states
  by (simp add: example_age0_def example_age1_def reindex_mat_def cell_at_def row_normalize_def normalize_row_def)

lemma example_pooled_probs:
  "pooled_probs example_tables =
     \<lparr>index = [''A'', ''B'', ''C''], columns = [''A'', ''B'', ''C''],
      cells = [[4 / 5, 1 / 5, 0], [1 / 7, 9 / 14, 3 / 14], [0, 0, 0]]\<rparr>"
proof -
  have "pooled_counts example_tables =
     \<lparr>index = [''A'', ''B'', ''C''], columns = [''A'', ''B'', ''C''],
      cells = [[8, 2, 0], [2, 9, 3], [0, 0, 0]]\<rparr>"
    using labels_pooled_counts [of example_tables] example_pooled_counts
    by (simp add: example_all_states)
  then show ?thesis
    by (simp add: pooled_probs_def row_normalize_def normalize_row_def)
qed

theorem shrink_toward_pool_extreme_weights_witness:
  "list_all (\<lambda>(age, tbl). labels_distinct tbl) example_tables \<and>
   shrink_toward_pool example_tables 0 =
     Inr [(0, \<lparr>index = [''A'', ''B'', ''C''], columns = [''A'', ''B'', ''C''],
               cells = [[4 / 5, 1 / 5, 0], [1 / 10, 9 / 10, 0], [0, 0, 0]]\<rparr>),
          (1, \<lparr>index = [''A'', ''B'', ''C''], columns = [''A'', ''B'', ''C''],
               cells = [[0, 0, 0], [1 / 4, 0, 3 / 4], [0, 0, 0]]\<rparr>)] \<and>
   shrink_toward_pool example_tables 1 =
     Inr [(0, \<lparr>index = [''A'', ''B'', ''C''], columns = [''A'', ''B'', ''C''],
               cells = [[4 / 5, 1 / 5, 0], [1 / 7, 9 / 14, 3 / 14], [0, 0, 0]]\<rparr>),
          (1, \<lparr>index = [''A'', ''B'', ''C''], columns = [''A'', ''B'', ''C''],
               cells = [[4 / 5, 1 / 5, 0], [1 / 7, 9 / 14, 3 / 14], [0, 0, 0]]\<rparr>)]"
proof -
  have m: "map (\<lambda>(age, tbl). (age, f tbl)) example_tables =
      [(0, f example_age0), (1, f example_age1)]" for f :: "string matrix \<Rightarrow> string matrix"
    by (simp add: example_tables_def)
  from shrink_toward_pool_extreme_weights [OF example_distinct] example_distinct
  show ?thesis
    by (simp add: m example_age_probs_0 example_age_probs_1 example_pooled_probs)
qed

section \<open>Properties of the age\<close>

lemma age_of_months:
  "age_of r = (12 * year (observation_date r) + month (observation_date r)) -
              (12 * year (origination_date r) + month (origination_date r))"
  by (simp add: age_of_def period_diff_n_def to_period_M_def)

lemma age_of_negative:
  assumes "valid_dates r"
  shows "age_of r < 0 \<longleftrightarrow>
           (year (observation_date r), month (observation_date r)) <
           (year (origination_date r), month (origination_date r))"
  using assms
  by (auto simp: age_of_months valid_dates_def valid_timestamp_def less_prod_def)

lemma age_of_zero:
  assumes "valid_dates r"
  shows "age_of r = 0 \<longleftrightarrow>
           year (observation_date r) = year (origination_date r) \<and>
           month (observation_date r) = month (origination_date r)"
  using assms unfolding age_of_months valid_dates_def valid_timestamp_def
  by arith

text \<open>
  Claim C5, as amended. For records with valid dates, \<open>compute_age_months\<close> keeps every
  row and adds an age column of the same length; the age of a record is the difference
  of the calendar-month indices \<open>12 * year + month\<close> of its observation and its
  origination, so the day of the month never enters; the age is negative exactly when
  the observation falls in an earlier calendar month than the origination, and zero
  exactly when both fall in the same calendar month.
\<close>

theorem compute_age_months_calendar_months:
  assumes "list_all valid_dates (rows df)"
  shows "\<exists>ages. age_months (compute_age_months df) = Some ages \<and>
           rows (compute_age_months df) = rows df \<and>
           length ages = length (rows df) \<and>
           (\<forall>i < length (rows df).
              ages ! i =
                (12 * year (observation_date (rows df ! i)) + month (observation_date (rows df ! i))) -
                (12 * year (origination_date (rows df ! i)) + month (origination_date (rows df ! i))) \<and>
              (ages ! i < 0 \<longleftrightarrow>
                 (year (observation_date (rows df ! i)), month (observation_date (rows df ! i))) <
                 (year (origination_date (rows df ! i)), month (origination_date (rows df ! i)))) \<and>
              (ages ! i = 0 \<longleftrightarrow>
                 year (observation_date (rows df ! i)) = year (origination_date (rows df ! i)) \<and>
                 month (observation_date (rows df ! i)) = month (origination_date (rows df ! i))))"
proof -
  let ?ages = "map age_of (rows df)"
  have "age_months (compute_age_months df) = Some ?ages" "rows (compute_age_months df) = rows df"
    by (simp_all add: compute_age_months_def)
  moreover have "length ?ages = length (rows df)" by simp
  moreover have "?ages ! i =
                (12 * year (observation_date (rows df ! i)) + month (observation_date (rows df ! i))) -
                (12 * year (origination_date (rows df ! i)) + month (origination_date (rows df ! i))) \<and>
              (?ages ! i < 0 \<longleftrightarrow>
                 (year (observation_date (rows df ! i)), month (observation_date (rows df ! i))) <
                 (year (origination_date (rows df ! i)), month (origination_date (rows df ! i)))) \<and>
              (?ages ! i = 0 \<longleftrightarrow>
                 year (observation_date (rows df ! i)) = year (origination_date (rows df ! i)) \<and>
                 month (observation_date (rows df ! i)) = month (origination_date (rows df ! i)))"
    if "i < length (rows df)" for i
  proof -
    from that assms have v: "valid_dates (rows df ! i)"
      by (simp add: list_all_length)
    from that have "?ages ! i = age_of (rows df ! i)" by simp
    with age_of_months [of "rows df ! i"] age_of_negative [OF v] age_of_zero [OF v]
    show ?thesis by simp
  qed
  ultimately show ?thesis by blast
qed

theorem compute_age_months_calendar_months_witness:
  "list_all valid_dates [loan_observed_early, loan_month_end, loan_previous_year] \<and>
   age_months (compute_age_months
      \<lparr>rows = [loan_observed_early, loan_month_end, loan_previous_year], age_months = None\<rparr>) =
     Some [0, 1, - 3]"
proof -
  let ?df = "\<lparr>rows = [loan_observed_early, loan_month_end, loan_previous_year],
               age_months = None :: int list option\<rparr>"
  have v: "list_all valid_dates (rows ?df)"
    by (simp add: valid_dates_def valid_timestamp_def loan_observed_early_def loan_month_end_def
        loan_previous_year_def)
  from compute_age_months_calendar_months [OF v]
  obtain ages where a: "age_months (compute_age_months ?df) = Some ages"
    and l: "length ages = 3"
    and n: "\<forall>i < 3. ages ! i =
                (12 * year (observation_date (rows ?df ! i)) + month (observation_date (rows ?df ! i))) -
                (12 * year (origination_date (rows ?df ! i)) + month (origination_date (rows ?df ! i)))"
    by auto
  from n have "ages ! 0 = 0" "ages ! 1 = 1" "ages ! 2 = - 3"
    by (simp_all add: loan_observed_early_def loan_month_end_def loan_previous_year_def)
  with l have "ages = [0, 1, - 3]"
    by (auto simp: numeral_3_eq_3 length_Suc_conv numeral_2_eq_2)
  with a v show ?thesis by simp
qed

text \<open>
  Claim C5 as stated fails: a record observed before its origination, in the same
  calendar month, gets the age 0 and not a negative age.
\<close>

theorem compute_age_months_observed_early:
  "ts_less (observation_date loan_observed_early) (origination_date loan_observed_early) \<and>
   age_months (compute_age_months \<lparr>rows = [loan_observed_early], age_months = None\<rparr>) = Some [0]"
  by (simp add: ts_less_def ts_key_def loan_observed_early_def compute_age_months_def age_of_def
      to_period_M_def period_diff_n_def)

section \<open>Transition counts on the examples\<close>

text \<open>
  Claim C3. The docstring promises, under an age, the counts of the transitions from the
  state at that age (rows) to the state at the next age (columns). For entity X, at the
  ages 0, 1, 2 in the states A, B, C, the function returns no table for age 0: it
  returns a table for age 1 with the row B and the column A, and a table for age 2 with
  the row C and the column B. \<open>df_next\<close> is keyed by age + 1, so the join pairs a record
  with the record one age before it, files the pair under the later age and puts the
  earlier state into \<open>to_state\<close>.
\<close>

theorem compute_empirical_transitions_entity_X:
  "compute_empirical_transitions entity_X =
     [(1, \<lparr>index = [''B''], columns = [''A''], cells = [[1]]\<rparr>),
      (2, \<lparr>index = [''C''], columns = [''B''], cells = [[1]]\<rparr>)]"
  by (simp add: compute_empirical_transitions_def entity_X_def example_loan_def the_ages_def
      aged_def selection_def sort_values_def next_ages_def transition_tables_def
      inner_join_def crosstab_def Let_def)

text \<open>Entity Y, with a gap at age 1, contributes no transition.\<close>

lemma compute_empirical_transitions_entity_Y: "compute_empirical_transitions entity_Y = []"
  by (simp add: compute_empirical_transitions_def entity_Y_def example_loan_def the_ages_def
      aged_def selection_def sort_values_def next_ages_def transition_tables_def
      inner_join_def crosstab_def Let_def)

text \<open>
  Claim C9. With two records at age 0 and three records at age 1 the join forms the
  2 * 3 = 6 pairs, and files them under age 1 (row B, column A), not under age 0.
\<close>

theorem compute_empirical_transitions_duplicates:
  "compute_empirical_transitions entity_dup =
     [(1, \<lparr>index = [''B''], columns = [''A''], cells = [[6]]\<rparr>)]"
  by (simp add: compute_empirical_transitions_def entity_dup_def example_loan_def the_ages_def
      aged_def selection_def sort_values_def next_ages_def transition_tables_def
      inner_join_def crosstab_def Let_def)

section \<open>Properties of the vintage pivot\<close>

lemma group_sum_Nil [simp]: "group_sum [] k = 0"
  by (simp add: group_sum_def)










subsection \<open>Sums of 64-bit integers\<close>






subsection \<open>The grouped sums\<close>





lemma na_records_aged:
  "na_records (df\<lparr>na_age_months := Some (map (\<lambda>r. Some (na_age_of r)) (na_rows df))\<rparr>) =
     grouping_records (df\<lparr>na_age_months := None\<rparr>)"
  by (simp add: na_records_def grouping_records_def)

lemma build_vintage_pivot_na_returns:
  assumes "na_age_months df = None \<longrightarrow> list_all dates_present (na_rows df)"
  shows "build_vintage_pivot_na df =
           Inr ((pivot_table (groupby_sum (grouping_records df)) 0)
                  \<lparr>index_names := [''origination_date'', ''age_months''],
                   columns_name := ''delinquency_bucket''\<rparr>)"
proof (cases "na_age_months df")
  case None
  with assms have "list_all dates_present (na_rows df)" by simp
  with None show ?thesis
    by (simp add: build_vintage_pivot_na_def compute_age_months_na_def Let_def na_records_def
        grouping_records_def)
next
  case (Some ages)
  then show ?thesis
    by (simp add: build_vintage_pivot_na_def Let_def na_records_def grouping_records_def)
qed

lemma build_vintage_pivot_na_raises:
  assumes "na_age_months df = None" "\<not> list_all dates_present (na_rows df)"
  shows "build_vintage_pivot_na df = Inl AttributeError"
  using assms by (simp add: build_vintage_pivot_na_def compute_age_months_na_def)







text \<open>
  Without the condition on 64-bit sums the cells do not sum to the balances either: two
  balances of \<open>2 ^ 62\<close> in one group sum to \<open>- 2 ^ 63\<close>.
\<close>

lemma build_vintage_pivot_na_int64_wraps:
  "build_vintage_pivot_na book_int64 =
     Inr \<lparr>pivot_index = [(\<lparr>year = 2020, month = 1, day = 15\<rparr>, 0)],
          pivot_columns = [''A''], pivot_cells = [[- 9223372036854775808]],
          index_names = [''origination_date'', ''age_months''],
          columns_name = ''delinquency_bucket''\<rparr>"
proof -
  have dp: "na_age_months book_int64 = None \<longrightarrow> list_all dates_present (na_rows book_int64)"
    by (simp add: book_int64_def)
  have k: "dropna_keys (grouping_records book_int64) =
     [((\<lparr>year = 2020, month = 1, day = 15\<rparr>, 0, ''A''), Int64 4611686018427387904),
      ((\<lparr>year = 2020, month = 1, day = 15\<rparr>, 0, ''A''), Int64 4611686018427387904)]"
    by (simp add: grouping_records_def book_int64_def na_example_row_def dropna_keys_def
        map_filter_simps)
  have g: "groupby_sum (grouping_records book_int64) =
      [((\<lparr>year = 2020, month = 1, day = 15\<rparr>, 0, ''A''), - 9223372036854775808)]"
    by (simp add: groupby_sum_def k Let_def column_sum_def is_int64_def the_int64_def)
  show ?thesis
    unfolding build_vintage_pivot_na_returns [OF dp] g
    by (simp add: pivot_table_def pivot_cell_def mean_def Let_def)
qed

subsection \<open>Tables of complete records\<close>

text \<open>
  On a table of complete records the pivot is the pivot of the same table read as a
  table that may have missing cells.
\<close>

lemma zip_map_same: "zip xs (map f xs) = map (\<lambda>x. (x, f x)) xs"
  by (induction xs) simp_all

lemma grouping_records_frame: "grouping_records (na_frame_of f) = vintage_records (aged f)"
proof (cases "age_months f")
  case None
  then show ?thesis
    by (simp add: grouping_records_def na_frame_of_def vintage_records_def aged_def
        compute_age_months_def the_ages_def zip_map_map na_age_of_def age_of_def
        zip_same_conv_map zip_map_same comp_def case_prod_unfold)
next
  case (Some ages)
  then show ?thesis
    by (simp add: grouping_records_def na_frame_of_def vintage_records_def aged_def
        the_ages_def zip_map_map case_prod_unfold)
qed

lemma build_vintage_pivot_na_frame:
  "build_vintage_pivot_na (na_frame_of f) = Inr (build_vintage_pivot f)"
proof -
  have "na_age_months (na_frame_of f) = None \<longrightarrow>
      list_all dates_present (na_rows (na_frame_of f))"
    by (simp add: na_frame_of_def dates_present_def list_all_iff)
  then show ?thesis
    by (simp add: build_vintage_pivot_na_returns grouping_records_frame build_vintage_pivot_def
        Let_def)
qed

lemma example_book_pivot:
  "build_vintage_pivot example_book =
     \<lparr>pivot_index = [(\<lparr>year = 2020, month = 1, day = 15\<rparr>, 0),
                      (\<lparr>year = 2020, month = 1, day = 15\<rparr>, 1)],
      pivot_columns = [''A'', ''B''], pivot_cells = [[200, 100], [100, 100]],
      index_names = [''origination_date'', ''age_months''],
      columns_name = ''delinquency_bucket''\<rparr>"
proof -
  have k: "dropna_keys (vintage_records (aged example_book)) =
     [((\<lparr>year = 2020, month = 1, day = 15\<rparr>, 0, ''A''), Float (Some 100)),
      ((\<lparr>year = 2020, month = 1, day = 15\<rparr>, 0, ''A''), Float (Some 100)),
      ((\<lparr>year = 2020, month = 1, day = 15\<rparr>, 1, ''B''), Float (Some 100)),
      ((\<lparr>year = 2020, month = 1, day = 15\<rparr>, 1, ''A''), Float (Some 100)),
      ((\<lparr>year = 2020, month = 1, day = 15\<rparr>, 0, ''B''), Float (Some 100))]"
    by (simp add: example_book_def example_loan_def compute_age_months_def aged_def
        vintage_records_def the_ages_def age_of_def to_period_M_def period_diff_n_def
        dropna_keys_def map_filter_simps)
  have g: "groupby_sum (vintage_records (aged example_book)) =
     [((\<lparr>year = 2020, month = 1, day = 15\<rparr>, 0, ''A''), 200),
      ((\<lparr>year = 2020, month = 1, day = 15\<rparr>, 0, ''B''), 100),
      ((\<lparr>year = 2020, month = 1, day = 15\<rparr>, 1, ''A''), 100),
      ((\<lparr>year = 2020, month = 1, day = 15\<rparr>, 1, ''B''), 100)]"
    by (simp add: groupby_sum_def k Let_def column_sum_def is_int64_def num_value_def ts_key_def)
  show ?thesis
    unfolding build_vintage_pivot_def Let_def g
    by (simp add: pivot_table_def pivot_cell_def mean_def Let_def ts_key_def)
qed

section \<open>No function mutates its input\<close>

subsection \<open>Reading the store\<close>

lemma lookup_append_new [simp]: "lookup (h @ v # vs) (length h) = Some v"
  by (simp add: lookup_def)

lemma lookup_append_old [simp]: "r < length h \<Longrightarrow> lookup (h @ vs) r = lookup h r"
  by (simp add: lookup_def nth_append)

lemma lookup_Some_less: "lookup h r = Some v \<Longrightarrow> r < length h"
  by (simp add: lookup_def split: if_splits)

lemma lookup_update_same [simp]: "r < length h \<Longrightarrow> lookup (h[r := v]) r = Some v"
  by (simp add: lookup_def)

lemma lookup_update_other [simp]: "r \<noteq> r' \<Longrightarrow> lookup (h[r' := v]) r = lookup h r"
  by (simp add: lookup_def)

lemma get_frame_iff: "get_frame h r = Some f \<longleftrightarrow> lookup h r = Some (Frame f)"
  by (auto simp: get_frame_def split: option.splits obj.splits)

lemma get_table_iff: "get_table h r = Some m \<longleftrightarrow> lookup h r = Some (Table m)"
  by (auto simp: get_table_def split: option.splits obj.splits)

lemma get_pivot_iff: "get_pivot h r = Some p \<longleftrightarrow> lookup h r = Some (PivotTable p)"
  by (auto simp: get_pivot_def split: option.splits obj.splits)

lemma get_dict_iff: "get_dict h r = Some d \<longleftrightarrow> lookup h r = Some (Dict d)"
  by (auto simp: get_dict_def split: option.splits obj.splits)

lemma get_frame_lookup: "lookup h r = Some (Frame f) \<Longrightarrow> get_frame h r = Some f"
  by (simp add: get_frame_iff)

lemma get_table_lookup: "lookup h r = Some (Table m) \<Longrightarrow> get_table h r = Some m"
  by (simp add: get_table_iff)

lemma get_pivot_lookup: "lookup h r = Some (PivotTable p) \<Longrightarrow> get_pivot h r = Some p"
  by (simp add: get_pivot_iff)

lemma get_dict_lookup: "lookup h r = Some (Dict d) \<Longrightarrow> get_dict h r = Some d"
  by (simp add: get_dict_iff)

lemma unchanged_append: "unchanged h (h @ vs)"
  by (simp add: unchanged_def)

lemma lookup_append:
  "lookup (h @ vs) r = (if r < length h then lookup h r else lookup vs (r - length h))"
  by (auto simp: lookup_def nth_append)

lemma lookup_Cons_0 [simp]: "lookup (v # vs) 0 = Some v"
  by (simp add: lookup_def)

lemma lookup_Cons_Suc [simp]: "lookup (v # vs) (Suc n) = lookup vs n"
  by (simp add: lookup_def)

lemma lookup_Nil [simp]: "lookup [] r = None"
  by (simp add: lookup_def)

lemma masked_assign:
  "map (\<lambda>(row, s). if s = 0 then map (\<lambda>_. 0) row else row)
     (zip (map (\<lambda>(row, s). if s \<noteq> 0 then map (\<lambda>x. x / s) row else row)
             (zip cs (map sum_list cs)))
        (map sum_list cs)) =
   map normalize_row cs"
  by (induction cs) (simp_all add: normalize_row_def)

lemma compute_age_months_h_exact:
  assumes "lookup h df = Some (Frame f)"
  shows "compute_age_months_h h df = Some (h @ [Frame (compute_age_months f)], length h)"
  using assms
  by (simp add: compute_age_months_h_def alloc_def store_def get_frame_lookup compute_age_months_def)

lemma row_normalize_h_exact:
  assumes "lookup h df = Some (Table m)"
  shows "row_normalize_h h df = Some (h @ [Table m, Table (row_normalize m)], Suc (length h))"
proof -
  have l0: "get_table h df = Some m"
    using assms by (rule get_table_lookup)
  show ?thesis
    unfolding row_normalize_h_def alloc_def store_def Let_def
    by (simp add: assms get_table_def lookup_append row_sums_def masked_assign
        row_normalize_def list_update_append)
qed

lemma laplace_smoothing_h_exact:
  assumes "lookup h counts = Some (Table m)"
  shows "laplace_smoothing_h h counts alpha =
           Some (h @ [Table (add_scalar m alpha), Table (add_scalar m alpha),
                      Table (laplace_smoothing m alpha)], Suc (Suc (length h)))"
proof -
  have "lookup (h @ [Table (add_scalar m alpha)]) (length h) = Some (Table (add_scalar m alpha))"
    by simp
  from row_normalize_h_exact [OF this] show ?thesis
    by (simp add: laplace_smoothing_h_def alloc_def get_table_lookup [OF assms]
        laplace_smoothing_def)
qed

lemma ensure_probability_matrix_h_exact:
  assumes "lookup h df = Some (Table m)"
  shows "ensure_probability_matrix_h h df =
           Some (h @ [Table (clip_lower m 0), Table (clip_lower m 0),
                      Table (ensure_probability_matrix m)], Suc (Suc (length h)))"
proof -
  have "lookup (h @ [Table (clip_lower m 0)]) (length h) = Some (Table (clip_lower m 0))"
    by simp
  from row_normalize_h_exact [OF this] show ?thesis
    by (simp add: ensure_probability_matrix_h_def alloc_def get_table_lookup [OF assms]
        ensure_probability_matrix_def)
qed

lemma with_age_exact:
  assumes "lookup h df = Some (Frame f)"
  shows "with_age h df =
           Some (if age_months f = None then (h @ [Frame (compute_age_months f)], length h)
                 else (h, df))"
  using assms
  by (simp add: with_age_def get_frame_lookup compute_age_months_h_exact)

lemma with_age_cases:
  assumes "lookup h df = Some (Frame f)"
  obtains h1 df1 where "with_age h df = Some (h1, df1)" "lookup h1 df1 = Some (Frame (aged f))"
    "\<exists>vs. h1 = h @ vs"
proof (cases "age_months f = None")
  case True
  show ?thesis
  proof
    show "with_age h df = Some (h @ [Frame (compute_age_months f)], length h)"
      using with_age_exact [OF assms] True by simp
    show "lookup (h @ [Frame (compute_age_months f)]) (length h) = Some (Frame (aged f))"
      using True by (simp add: aged_def)
    show "\<exists>vs. h @ [Frame (compute_age_months f)] = h @ vs" by blast
  qed
next
  case False
  show ?thesis
  proof
    show "with_age h df = Some (h, df)"
      using with_age_exact [OF assms] False by simp
    show "lookup h df = Some (Frame (aged f))"
      using False assms by (auto simp: aged_def)
    show "\<exists>vs. h = h @ vs" by simp
  qed
qed

lemma dict_set_entries:
  "(a', r') \<in> set (dict_set a r d) \<Longrightarrow> (a', r') \<in> set d \<or> r' = r"
  by (induction d) (auto split: if_splits)

lemma dict_add_all_entries:
  "(a, r) \<in> set (dict_add_all base step xs d) \<Longrightarrow> (a, r) \<in> set d \<or> base \<le> r"
proof (induction xs arbitrary: base d)
  case Nil
  then show ?case by simp
next
  case (Cons x xs)
  obtain age y where x: "x = (age, y)" by (cases x)
  from Cons.prems have "(a, r) \<in> set (dict_add_all (base + step) step xs (dict_set age base d))"
    by (simp add: x)
  from Cons.IH [OF this] show ?case
    by (auto dest: dict_set_entries)
qed

lemma crosstab_loop_exact:
  assumes "lookup h tr = Some (Dict d)"
  shows "crosstab_loop tabs h tr =
           Some (h[tr := Dict (dict_add_all (length h) 1 tabs d)] @ map (\<lambda>(age, tbl). Table tbl) tabs)"
  using assms
proof (induction tabs arbitrary: h d)
  case Nil
  then have "h[tr := Dict d] = h"
    by (simp add: lookup_def list_update_same_conv split: if_splits)
  then show ?case by simp
next
  case (Cons x tabs)
  obtain age tbl where x: "x = (age, tbl)" by (cases x)
  from Cons.prems have tr: "tr < length h" by (rule lookup_Some_less)
  let ?h2 = "(h @ [Table tbl])[tr := Dict (dict_set age (length h) d)]"
  have l: "lookup ?h2 tr = Some (Dict (dict_set age (length h) d))"
    using tr by simp
  have step: "crosstab_loop (x # tabs) h tr = crosstab_loop tabs ?h2 tr"
    using tr Cons.prems
    by (simp add: x alloc_def store_def get_dict_def)
  show ?case
    unfolding step Cons.IH [OF l]
    using tr by (simp add: x list_update_append)
qed

lemma read_tables_Some:
  "read_tables h d = Some tabs \<Longrightarrow>
   list_all2 (\<lambda>(a, t) (a', tbl). a' = a \<and> lookup h t = Some (Table tbl)) d tabs"
proof (induction d arbitrary: tabs)
  case Nil
  then show ?case by simp
next
  case (Cons x d)
  obtain a t where x: "x = (a, t)" by (cases x)
  from Cons.prems obtain tbl rest where t: "get_table h t = Some tbl"
    and r: "read_tables h d = Some rest" and tabs: "tabs = (a, tbl) # rest"
    by (auto simp: x split: bind_splits)
  from Cons.IH [OF r] t show ?case
    by (simp add: x tabs get_table_iff)
qed

lemma pool_loop_h_exact:
  assumes "list_all2 (\<lambda>(a, t) (a', tbl). a' = a \<and> lookup h t = Some (Table tbl) \<and> t \<noteq> pooled) d tabs"
    and "list_all (\<lambda>(age, tbl). labels_distinct tbl) tabs"
    and "lookup h pooled = Some (Table p)"
  shows "pool_loop_h S d h pooled =
           Some (h[pooled := Table (fold (\<lambda>(age, tbl) pooled. mat_add pooled (reindex_mat tbl S S 0)) tabs p)]
                 @ map (\<lambda>(age, tbl). Table (reindex_mat tbl S S 0)) tabs)"
  using assms
proof (induction d tabs arbitrary: h p rule: list_induct2')
  case 1
  then have "h[pooled := Table p] = h"
    by (simp add: lookup_def list_update_same_conv split: if_splits)
  then show ?case by simp
next
  case (2 x xs)
  then show ?case by simp
next
  case (3 y ys)
  then show ?case by simp
next
  case (4 x d y tabs)
  obtain a t where x: "x = (a, t)" by (cases x)
  obtain a' tbl where y: "y = (a', tbl)" by (cases y)
  from "4.prems"(1) have t: "lookup h t = Some (Table tbl)" and ne: "t \<noteq> pooled"
    and rest: "list_all2 (\<lambda>(a, t) (a', tbl). a' = a \<and> lookup h t = Some (Table tbl) \<and> t \<noteq> pooled) d tabs"
    by (simp_all add: x y)
  from "4.prems"(2) have dl: "labels_distinct tbl"
    and dr: "list_all (\<lambda>(age, tbl). labels_distinct tbl) tabs"
    by (simp_all add: y)
  from "4.prems"(3) have pl: "pooled < length h" by (rule lookup_Some_less)
  let ?r = "reindex_mat tbl S S 0"
  let ?h2 = "(h @ [Table ?r])[pooled := Table (mat_add p ?r)]"
  have step: "pool_loop_h S (x # d) h pooled = pool_loop_h S d ?h2 pooled"
    using pl "4.prems"(3)
    by (simp add: x reindex_h_def t reindex_ok [OF dl] alloc_def store_def
        get_table_def lookup_append)
  have rest2: "list_all2 (\<lambda>(a, t) (a', tbl). a' = a \<and> lookup ?h2 t = Some (Table tbl) \<and> t \<noteq> pooled) d tabs"
    using rest
    by (rule list_all2_mono) (auto simp: lookup_append dest: lookup_Some_less)
  have l: "lookup ?h2 pooled = Some (Table (mat_add p ?r))"
    using pl by simp
  show ?case
    unfolding step "4.IH" [OF rest2 dr l]
    using pl by (simp add: y list_update_append)
qed

lemma length_block [simp]: "length (block S w Q tbl) = 6"
  by (simp add: block_def Let_def)

lemma shrink_iteration:
  assumes t: "lookup h t = Some (Table tbl)"
    and dl: "labels_distinct tbl"
    and out: "lookup h out = Some (Dict od)"
    and pp: "lookup h pp = Some (Table Q)"
  shows "shrink_loop_h S w pp ((age, t) # rest) h out =
           shrink_loop_h S w pp rest
             ((h @ block S w Q tbl)[out := Dict (dict_set age (length h + 5) od)]) out"
proof -
  let ?r = "reindex_mat tbl S S 0"
  let ?h1 = "h @ [Table ?r]"
  from out have ol: "out < length h" by (rule lookup_Some_less)
  from pp have pl: "pp < length h" by (rule lookup_Some_less)
  have re: "reindex_h h t S = Some (?h1, length h)"
    by (simp add: reindex_h_def get_table_lookup [OF t] reindex_ok [OF dl] alloc_def)
  have "lookup ?h1 (length h) = Some (Table ?r)" by simp
  from row_normalize_h_exact [OF this]
  have rn: "row_normalize_h ?h1 (length h) =
      Some (h @ [Table ?r, Table ?r, Table (row_normalize ?r)], Suc (Suc (length h)))"
    by simp
  show ?thesis
    using ol pl out pp
    by (simp add: re rn alloc_def store_def get_table_def get_dict_def lookup_append
        block_def Let_def blend_def eval_nat_numeral)
qed

lemma shrink_loop_h_exact:
  assumes "list_all2 (\<lambda>(a, t) (a', tbl). a' = a \<and> lookup h t = Some (Table tbl) \<and> t \<noteq> out) d tabs"
    and "list_all (\<lambda>(age, tbl). labels_distinct tbl) tabs"
    and "lookup h out = Some (Dict od)"
    and "lookup h pp = Some (Table Q)"
    and "pp \<noteq> out"
  shows "shrink_loop_h S w pp d h out =
           Some (h[out := Dict (dict_add_all (length h + 5) 6 tabs od)]
                 @ concat (map (\<lambda>(age, tbl). block S w Q tbl) tabs))"
  using assms(1-4)
proof (induction d tabs arbitrary: h od rule: list_induct2')
  case 1
  then have "h[out := Dict od] = h"
    by (simp add: lookup_def list_update_same_conv split: if_splits)
  then show ?case by simp
next
  case (2 x xs)
  then show ?case by simp
next
  case (3 y ys)
  then show ?case by simp
next
  case (4 x d y tabs)
  obtain a t where x: "x = (a, t)" by (cases x)
  obtain a' tbl where y: "y = (a', tbl)" by (cases y)
  from "4.prems"(1) have t: "lookup h t = Some (Table tbl)" and ne: "t \<noteq> out" and a: "a' = a"
    and rest: "list_all2 (\<lambda>(a, t) (a', tbl). a' = a \<and> lookup h t = Some (Table tbl) \<and> t \<noteq> out) d tabs"
    by (simp_all add: x y)
  from "4.prems"(2) have dl: "labels_distinct tbl"
    and dr: "list_all (\<lambda>(age, tbl). labels_distinct tbl) tabs"
    by (simp_all add: y)
  from "4.prems"(3) have ol: "out < length h" by (rule lookup_Some_less)
  from "4.prems"(4) have pl: "pp < length h" by (rule lookup_Some_less)
  let ?h6 = "(h @ block S w Q tbl)[out := Dict (dict_set a (length h + 5) od)]"
  have step: "shrink_loop_h S w pp (x # d) h out = shrink_loop_h S w pp d ?h6 out"
    unfolding x using t dl "4.prems"(3,4) by (rule shrink_iteration)
  have rest2: "list_all2 (\<lambda>(a, t) (a', tbl). a' = a \<and> lookup ?h6 t = Some (Table tbl) \<and> t \<noteq> out) d tabs"
    using rest
    by (rule list_all2_mono) (auto simp: lookup_append dest: lookup_Some_less)
  have l: "lookup ?h6 out = Some (Dict (dict_set a (length h + 5) od))"
    using ol by simp
  have q: "lookup ?h6 pp = Some (Table Q)"
    using pl assms(5) "4.prems"(4) by (simp add: lookup_append)
  have len: "length ?h6 = length h + 6" by simp
  show ?case
    unfolding step "4.IH" [OF rest2 dr l q] len
    using ol by (simp add: y a list_update_append add.commute add.left_commute)
qed

lemma unchanged_iff: "unchanged h h' \<longleftrightarrow> (\<exists>vs. h' = h @ vs)"
proof
  assume "unchanged h h'"
  then have "h' = h @ drop (length h) h'"
    by (metis unchanged_def append_take_drop_id)
  then show "\<exists>vs. h' = h @ vs" ..
next
  assume "\<exists>vs. h' = h @ vs"
  then show "unchanged h h'" by (auto simp: unchanged_def)
qed

lemma unchanged_trans: "unchanged h h1 \<Longrightarrow> unchanged h1 h2 \<Longrightarrow> unchanged h h2"
  by (auto simp: unchanged_iff)

lemma unchanged_update: "unchanged h h' \<Longrightarrow> length h \<le> r \<Longrightarrow> unchanged h (h'[r := v])"
  by (simp add: unchanged_def)

lemma unchanged_refl: "unchanged h h"
  by (simp add: unchanged_def)

lemma all_fresh_dict_add_all: "length h \<le> base \<Longrightarrow> all_fresh h (dict_add_all base step xs [])"
  unfolding all_fresh_def list_all_iff fresh_def
  by (auto dest: dict_add_all_entries)

lemma compute_age_months_h_spec:
  assumes "lookup h df = Some (Frame f)"
  shows "\<exists>h' r. compute_age_months_h h df = Some (h', r) \<and> unchanged h h' \<and> fresh h r \<and>
           lookup h' r = Some (Frame (compute_age_months f))"
  by (simp add: compute_age_months_h_exact [OF assms] unchanged_append fresh_def)

lemma row_normalize_h_spec:
  assumes "lookup h df = Some (Table m)"
  shows "\<exists>h' r. row_normalize_h h df = Some (h', r) \<and> unchanged h h' \<and> fresh h r \<and>
           lookup h' r = Some (Table (row_normalize m))"
  by (simp add: row_normalize_h_exact [OF assms] unchanged_append fresh_def lookup_append)

lemma laplace_smoothing_h_spec:
  assumes "lookup h counts = Some (Table m)"
  shows "\<exists>h' r. laplace_smoothing_h h counts alpha = Some (h', r) \<and> unchanged h h' \<and> fresh h r \<and>
           lookup h' r = Some (Table (laplace_smoothing m alpha))"
  by (simp add: laplace_smoothing_h_exact [OF assms] unchanged_append fresh_def lookup_append
      eval_nat_numeral)

lemma ensure_probability_matrix_h_spec:
  assumes "lookup h df = Some (Table m)"
  shows "\<exists>h' r. ensure_probability_matrix_h h df = Some (h', r) \<and> unchanged h h' \<and> fresh h r \<and>
           lookup h' r = Some (Table (ensure_probability_matrix m))"
  by (simp add: ensure_probability_matrix_h_exact [OF assms] unchanged_append fresh_def
      lookup_append eval_nat_numeral)

lemma dict_set_new: "k \<notin> fst ` set d \<Longrightarrow> dict_set k v d = d @ [(k, v)]"
  by (induction d) auto

lemma map_fst_numbered [simp]: "map fst (numbered base step xs) = map fst xs"
  by (induction xs arbitrary: base) auto

lemma dict_add_all_numbered:
  assumes "distinct (map fst xs)" "fst ` set xs \<inter> fst ` set d = {}"
  shows "dict_add_all base step xs d = d @ numbered base step xs"
  using assms
proof (induction xs arbitrary: base d)
  case Nil
  then show ?case by simp
next
  case (Cons x xs)
  obtain age y where x: "x = (age, y)" by (cases x)
  from Cons.prems have new: "age \<notin> fst ` set d" and d: "distinct (map fst xs)"
    and disj: "fst ` set xs \<inter> fst ` set (d @ [(age, base)]) = {}"
    by (auto simp: x)
  show ?case
    using Cons.IH [OF d disj] by (simp add: x dict_set_new [OF new])
qed

lemma read_tables_numbered:
  "read_tables (X @ map (\<lambda>(age, tbl). Table tbl) tabs @ Y) (numbered (length X) 1 tabs) = Some tabs"
proof (induction tabs arbitrary: X)
  case Nil
  then show ?case by simp
next
  case (Cons x tabs)
  obtain age tbl where x: "x = (age, tbl)" by (cases x)
  have "read_tables ((X @ [Table tbl]) @ map (\<lambda>(age, tbl). Table tbl) tabs @ Y)
          (numbered (length (X @ [Table tbl])) 1 tabs) = Some tabs"
    by (rule Cons.IH)
  then show ?case
    by (simp add: x get_table_def)
qed

lemma read_tables_blocks:
  "read_tables (X @ concat (map (\<lambda>(age, tbl). block S w Q tbl) tabs) @ Y)
     (numbered (length X + 5) 6 tabs) =
   Some (map (\<lambda>(age, tbl). (age, blend w (row_normalize (reindex_mat tbl S S 0)) Q)) tabs)"
proof (induction tabs arbitrary: X)
  case Nil
  then show ?case by simp
next
  case (Cons x tabs)
  obtain age tbl where x: "x = (age, tbl)" by (cases x)
  have "read_tables ((X @ block S w Q tbl) @ concat (map (\<lambda>(age, tbl). block S w Q tbl) tabs) @ Y)
          (numbered (length (X @ block S w Q tbl) + 5) 6 tabs) =
        Some (map (\<lambda>(age, tbl). (age, blend w (row_normalize (reindex_mat tbl S S 0)) Q)) tabs)"
    by (rule Cons.IH)
  moreover have "lookup (X @ block S w Q tbl @ concat (map (\<lambda>(age, tbl). block S w Q tbl) tabs) @ Y)
      (length X + 5) = Some (Table (blend w (row_normalize (reindex_mat tbl S S 0)) Q))"
    by (simp add: lookup_append block_def Let_def eval_nat_numeral)
  ultimately show ?case
    by (simp add: x get_table_def add.commute add.left_commute)
qed

lemma distinct_transition_ages: "distinct (map fst (transition_tables df2 na))"
  by (simp add: transition_tables_def Let_def comp_def)

lemma read_tables_keys: "read_tables h d = Some tabs \<Longrightarrow> map fst tabs = map fst d"
proof (induction d arbitrary: tabs)
  case Nil
  then show ?case by simp
next
  case (Cons x d)
  obtain a t where x: "x = (a, t)" by (cases x)
  from Cons.prems obtain tbl rest where "tabs = (a, tbl) # rest" "read_tables h d = Some rest"
    by (auto simp: x split: bind_splits)
  with Cons.IH show ?case by (simp add: x)
qed

subsection \<open>The specifications of the functions on the store\<close>

lemma build_vintage_pivot_h_spec:
  assumes "lookup h df = Some (Frame f)"
  shows "\<exists>h' r. build_vintage_pivot_h h df = Some (h', r) \<and> unchanged h h' \<and> fresh h r \<and>
           lookup h' r = Some (PivotTable (build_vintage_pivot f))"
proof -
  from assms obtain h1 df1 vs where w: "with_age h df = Some (h1, df1)"
    and l: "lookup h1 df1 = Some (Frame (aged f))" and h1: "h1 = h @ vs"
    by (rule with_age_cases) blast
  let ?p = "PivotTable (build_vintage_pivot f)"
  have "build_vintage_pivot_h h df = Some (h1 @ [?p], length h1)"
    unfolding build_vintage_pivot_h_def alloc_def store_def Let_def
    by (simp add: w get_frame_lookup [OF l] get_pivot_def build_vintage_pivot_def Let_def)
  then have run: "build_vintage_pivot_h h df = Some (h @ (vs @ [?p]), length h1)"
    by (simp add: h1)
  have "lookup (h1 @ [?p]) (length h1) = Some ?p"
    by (rule lookup_append_new)
  then have "lookup (h @ (vs @ [?p])) (length h1) = Some ?p"
    by (simp add: h1)
  moreover have "fresh h (length h1)" by (simp add: h1 fresh_def)
  moreover have "unchanged h (h @ (vs @ [?p]))" by (rule unchanged_append)
  ultimately show ?thesis using run by blast
qed

lemma compute_empirical_transitions_h_spec:
  assumes "lookup h df = Some (Frame f)"
  shows "\<exists>h' r d. compute_empirical_transitions_h h df = Some (h', r) \<and> unchanged h h' \<and>
           fresh h r \<and> lookup h' r = Some (Dict d) \<and> all_fresh h d \<and>
           read_tables h' d = Some (compute_empirical_transitions f)"
proof -
  from assms obtain h1 df1 vs where w: "with_age h df = Some (h1, df1)"
    and l: "lookup h1 df1 = Some (Frame (aged f))" and h1: "h1 = h @ vs"
    by (rule with_age_cases) blast
  let ?sel = "selection (aged f)"
  let ?df2 = "sort_values ?sel"
  let ?tabs = "transition_tables ?df2 (next_ages ?df2)"
  let ?h5 = "h1 @ [Selection ?sel None, Selection ?sel None, Selection ?df2 (Some (next_ages ?df2))]"
  let ?h6 = "?h5 @ [Dict []]"
  let ?tr = "length ?h5"
  let ?d = "dict_add_all (length ?h6) 1 ?tabs []"
  let ?h7 = "?h6[?tr := Dict ?d] @ map (\<lambda>(age, tbl). Table tbl) ?tabs"
  have "lookup ?h6 ?tr = Some (Dict [])"
    by (rule lookup_append_new)
  then have loop: "crosstab_loop ?tabs ?h6 ?tr = Some ?h7"
    by (rule crosstab_loop_exact)
  have run: "compute_empirical_transitions_h h df = Some (?h7, ?tr)"
    unfolding compute_empirical_transitions_h_def alloc_def store_def Let_def
    using loop
    by (simp add: w get_frame_lookup [OF l] get_selection_def lookup_append list_update_append
        eval_nat_numeral)
  have "unchanged h ?h6"
    unfolding h1 by (simp add: unchanged_iff)
  then have "unchanged h (?h6[?tr := Dict ?d])"
    by (rule unchanged_update) (simp add: h1)
  then have u: "unchanged h ?h7"
    by (rule unchanged_trans) (rule unchanged_append)
  have f: "fresh h ?tr"
    by (simp add: fresh_def h1)
  have d: "lookup ?h7 ?tr = Some (Dict ?d)"
    by (simp add: lookup_append)
  have a: "all_fresh h ?d"
    by (rule all_fresh_dict_add_all) (simp add: h1)
  have dn: "?d = numbered (length (?h5 @ [Dict ?d])) 1 ?tabs"
    using dict_add_all_numbered [of ?tabs "[]" "length ?h6" 1]
    by (simp add: distinct_transition_ages)
  have "read_tables ((?h5 @ [Dict ?d]) @ map (\<lambda>(age, tbl). Table tbl) ?tabs @ [])
          (numbered (length (?h5 @ [Dict ?d])) 1 ?tabs) = Some ?tabs"
    by (rule read_tables_numbered)
  with dn have "read_tables ((?h5 @ [Dict ?d]) @ map (\<lambda>(age, tbl). Table tbl) ?tabs @ []) ?d = Some ?tabs"
    by simp
  then have r: "read_tables ?h7 ?d = Some (compute_empirical_transitions f)"
    by (simp add: compute_empirical_transitions_def Let_def list_update_append)
  from run u f d a r show ?thesis by blast
qed

lemma states_loop_exact:
  assumes "list_all2 (\<lambda>(a, t) (a', tbl). a' = a \<and> lookup h t = Some (Table tbl) \<and> t \<noteq> st) d tabs"
    and "lookup h st = Some (StateSet s0)"
  shows "states_loop d h st = Some (h[st := StateSet (collect_states tabs s0)])"
  using assms
proof (induction d tabs arbitrary: h s0 rule: list_induct2')
  case 1
  then have "h[st := StateSet s0] = h"
    by (simp add: lookup_def list_update_same_conv split: if_splits)
  then show ?case by (simp add: collect_states_def)
next
  case (2 x xs)
  then show ?case by simp
next
  case (3 y ys)
  then show ?case by simp
next
  case (4 x d y tabs)
  obtain a t where x: "x = (a, t)" by (cases x)
  obtain a' tbl where y: "y = (a', tbl)" by (cases y)
  from "4.prems"(1) have t: "lookup h t = Some (Table tbl)" and ne: "t \<noteq> st"
    and rest: "list_all2 (\<lambda>(a, t) (a', tbl). a' = a \<and> lookup h t = Some (Table tbl) \<and> t \<noteq> st) d tabs"
    by (simp_all add: x y)
  from "4.prems"(2) have sl: "st < length h" by (rule lookup_Some_less)
  let ?s = "remdups (remdups (s0 @ index tbl) @ columns tbl)"
  let ?h2 = "h[st := StateSet ?s]"
  have step: "states_loop (x # d) h st = states_loop d ?h2 st"
    using sl "4.prems"(2)
    by (simp add: x get_table_lookup [OF t] get_states_def store_def)
  have rest2: "list_all2 (\<lambda>(a, t) (a', tbl). a' = a \<and> lookup ?h2 t = Some (Table tbl) \<and> t \<noteq> st) d tabs"
    using rest by (rule list_all2_mono) auto
  have l: "lookup ?h2 st = Some (StateSet ?s)"
    using sl by simp
  show ?case
    unfolding step "4.IH" [OF rest2 l]
    by (simp add: y collect_states_def)
qed

lemma collect_states_set:
  "set (collect_states tabs s0) = set s0 \<union> set (concat (map (\<lambda>(age, tbl). index tbl @ columns tbl) tabs))"
  unfolding collect_states_def
  by (induction tabs arbitrary: s0) auto

lemma collect_states_distinct: "distinct s0 \<Longrightarrow> distinct (collect_states tabs s0)"
  unfolding collect_states_def
  by (induction tabs arbitrary: s0) auto

lemma sort_distinct_set:
  assumes "distinct xs" "distinct ys" "set xs = set ys"
  shows "sort xs = sort (ys :: 'a::linorder list)"
proof -
  have "sort xs = sorted_list_of_set (set xs)" "sort ys = sorted_list_of_set (set ys)"
    using assms(1,2) by (simp_all add: sorted_list_of_set_sort_remdups distinct_remdups_id)
  with assms(3) show ?thesis by simp
qed

lemma sort_collect_states: "sort (collect_states tabs []) = all_states tabs"
  unfolding all_states_def
  by (rule sort_distinct_set) (simp_all add: collect_states_distinct collect_states_set)

lemma lookup_unchanged: "unchanged h h' \<Longrightarrow> lookup h b = Some v \<Longrightarrow> lookup h' b = Some v"
  by (auto simp: unchanged_iff lookup_append dest: lookup_Some_less)

lemma entries_unchanged:
  assumes "list_all2 (\<lambda>(a, t) (a', tbl). a' = a \<and> lookup h t = Some (Table tbl)) entries tabs"
    and "unchanged h h'" and "length h \<le> r"
  shows "list_all2 (\<lambda>(a, t) (a', tbl). a' = a \<and> lookup h' t = Some (Table tbl) \<and> t \<noteq> r)
           entries tabs"
proof -
  have "lookup h' t = Some (Table tbl) \<and> t \<noteq> r" if "lookup h t = Some (Table tbl)" for t tbl
    using that assms(2,3) by (auto dest: lookup_unchanged lookup_Some_less)
  with assms(1) show ?thesis
    by (auto elim!: list_all2_mono)
qed

lemma shrink_toward_pool_h_spec:
  assumes d: "lookup h d = Some (Dict entries)"
    and tabs: "read_tables h entries = Some tabs"
    and dl: "list_all (\<lambda>(age, tbl). labels_distinct tbl) tabs"
    and keys: "distinct (map fst entries)"
  shows "\<exists>h' r out res. shrink_toward_pool_h h d w = Some (h', r) \<and> unchanged h h' \<and>
           fresh h r \<and> lookup h' r = Some (Dict out) \<and> all_fresh h out \<and>
           shrink_toward_pool tabs w = Inr res \<and> read_tables h' out = Some res"
proof -
  let ?S = "all_states tabs"
  let ?h0 = "h @ [StateSet []]"
  let ?st = "length h"
  let ?h0' = "h @ [StateSet (collect_states tabs [])]"
  let ?h1 = "?h0' @ [Table (zeros ?S)]"
  let ?pooled = "length ?h0'"
  let ?PC = "fold (\<lambda>(age, tbl) pooled. mat_add pooled (reindex_mat tbl ?S ?S 0)) tabs (zeros ?S)"
  let ?R = "map (\<lambda>(age, tbl). Table (reindex_mat tbl ?S ?S 0)) tabs"
  let ?h2 = "?h1[?pooled := Table ?PC] @ ?R"
  let ?h3 = "?h2 @ [Table ?PC, Table (row_normalize ?PC)]"
  let ?pp = "Suc (length ?h2)"
  let ?h4 = "?h3 @ [Dict []]"
  let ?out = "length ?h3"
  let ?D = "dict_add_all (length ?h4 + 5) 6 tabs []"
  let ?h5 = "?h4[?out := Dict ?D] @ concat (map (\<lambda>(age, tbl). block ?S w (row_normalize ?PC) tbl) tabs)"
  note base = read_tables_Some [OF tabs]
  have u0: "unchanged h ?h0" by (rule unchanged_append)
  have u1: "unchanged h ?h1" by (simp add: unchanged_iff)
  then have "unchanged h (?h1[?pooled := Table ?PC])"
    by (rule unchanged_update) simp
  then have u2: "unchanged h ?h2"
    by (rule unchanged_trans) (rule unchanged_append)
  then have u3: "unchanged h ?h3"
    by (rule unchanged_trans) (rule unchanged_append)
  then have u4: "unchanged h ?h4"
    by (rule unchanged_trans) (rule unchanged_append)
  then have "unchanged h (?h4[?out := Dict ?D])"
    by (rule unchanged_update) simp
  then have u: "unchanged h ?h5"
    by (rule unchanged_trans) (rule unchanged_append)
  have e0: "list_all2 (\<lambda>(a, t) (a', tbl). a' = a \<and> lookup ?h0 t = Some (Table tbl) \<and> t \<noteq> ?st)
              entries tabs"
    using base u0 by (rule entries_unchanged) simp
  have "lookup ?h0 ?st = Some (StateSet [])" by simp
  with e0 have "states_loop entries ?h0 ?st = Some (?h0[?st := StateSet (collect_states tabs [])])"
    by (rule states_loop_exact)
  then have states: "states_loop entries ?h0 ?st = Some ?h0'"
    by simp
  have s: "get_states ?h0' ?st = Some (collect_states tabs [])"
    by (simp add: get_states_def)
  have e1: "list_all2 (\<lambda>(a, t) (a', tbl). a' = a \<and> lookup ?h1 t = Some (Table tbl) \<and> t \<noteq> ?pooled)
              entries tabs"
    using base u1 by (rule entries_unchanged) simp
  have "lookup ?h1 ?pooled = Some (Table (zeros ?S))"
    by (rule lookup_append_new)
  with e1 dl have pool: "pool_loop_h ?S entries ?h1 ?pooled = Some ?h2"
    by (rule pool_loop_h_exact)
  have "lookup ?h2 ?pooled = Some (Table ?PC)"
    by (simp add: lookup_append)
  then have rn: "row_normalize_h ?h2 ?pooled = Some (?h3, ?pp)"
    by (rule row_normalize_h_exact)
  have e4: "list_all2 (\<lambda>(a, t) (a', tbl). a' = a \<and> lookup ?h4 t = Some (Table tbl) \<and> t \<noteq> ?out)
              entries tabs"
    using base u4 by (rule entries_unchanged) simp
  have o4: "lookup ?h4 ?out = Some (Dict [])"
    by (rule lookup_append_new)
  have p4: "lookup ?h4 ?pp = Some (Table (row_normalize ?PC))"
    by (simp add: lookup_append)
  have ne: "?pp \<noteq> ?out" by simp
  from e4 dl o4 p4 ne have loop: "shrink_loop_h ?S w ?pp entries ?h4 ?out = Some ?h5"
    by (rule shrink_loop_h_exact)
  have run: "shrink_toward_pool_h h d w = Some (?h5, ?out)"
    unfolding shrink_toward_pool_h_def alloc_def Let_def
    using states pool rn loop
    by (simp add: get_dict_lookup [OF d] s sort_collect_states)
  have f: "fresh h ?out" by (simp add: fresh_def)
  have l: "lookup ?h5 ?out = Some (Dict ?D)"
    by (simp add: lookup_append)
  have a: "all_fresh h ?D"
    by (rule all_fresh_dict_add_all) simp
  let ?res = "map (\<lambda>(age, tbl). (age, blend w (age_probs tabs tbl) (pooled_probs tabs))) tabs"
  have pure: "shrink_toward_pool tabs w = Inr ?res"
    using dl by (rule shrink_toward_pool_ok)
  from keys have "distinct (map fst tabs)"
    by (simp add: read_tables_keys [OF tabs])
  then have dn: "?D = numbered (length (?h3 @ [Dict ?D]) + 5) 6 tabs"
    using dict_add_all_numbered [of tabs "[]" "length ?h4 + 5" 6] by simp
  have "read_tables ((?h3 @ [Dict ?D]) @
            concat (map (\<lambda>(age, tbl). block ?S w (row_normalize ?PC) tbl) tabs) @ [])
          (numbered (length (?h3 @ [Dict ?D]) + 5) 6 tabs) =
        Some (map (\<lambda>(age, tbl). (age, blend w (row_normalize (reindex_mat tbl ?S ?S 0))
                                        (row_normalize ?PC))) tabs)"
    by (rule read_tables_blocks)
  with dn have "read_tables ((?h3 @ [Dict ?D]) @
            concat (map (\<lambda>(age, tbl). block ?S w (row_normalize ?PC) tbl) tabs) @ []) ?D =
        Some (map (\<lambda>(age, tbl). (age, blend w (row_normalize (reindex_mat tbl ?S ?S 0))
                                        (row_normalize ?PC))) tabs)"
    by simp
  then have r: "read_tables ?h5 ?D = Some ?res"
    by (simp add: age_probs_def pooled_probs_def pooled_counts_def Let_def list_update_append)
  from run u f l a pure r show ?thesis by blast
qed

text \<open>
  Claim C10. On every store, each public function called on a reference to an object of
  its argument type returns; in the store it returns, every object of the caller's store
  is as it was (the input table, or the input dictionary and every table in it,
  included); the result is an object that the caller's store did not have, and so is
  every table of a result dictionary; and the result is the value of the function.
  For \<open>shrink_toward_pool\<close> the tables of the dictionary carry each label once per axis
  (otherwise \<open>reindex\<close> raises).
\<close>

theorem public_functions_leave_inputs_unchanged:
  fixes h :: "('i::linorder, 's::linorder) heap"
  shows
  "(lookup h df = Some (Frame f) \<longrightarrow>
      (\<exists>h' r. compute_age_months_h h df = Some (h', r) \<and> unchanged h h' \<and> fresh h r \<and>
         lookup h' r = Some (Frame (compute_age_months f))) \<and>
      (\<exists>h' r. build_vintage_pivot_h h df = Some (h', r) \<and> unchanged h h' \<and> fresh h r \<and>
         lookup h' r = Some (PivotTable (build_vintage_pivot f))) \<and>
      (\<exists>h' r d. compute_empirical_transitions_h h df = Some (h', r) \<and> unchanged h h' \<and>
         fresh h r \<and> lookup h' r = Some (Dict d) \<and> all_fresh h d \<and>
         read_tables h' d = Some (compute_empirical_transitions f))) \<and>
   (lookup h t = Some (Table m) \<longrightarrow>
      (\<exists>h' r. row_normalize_h h t = Some (h', r) \<and> unchanged h h' \<and> fresh h r \<and>
         lookup h' r = Some (Table (row_normalize m))) \<and>
      (\<exists>h' r. laplace_smoothing_h h t alpha = Some (h', r) \<and> unchanged h h' \<and> fresh h r \<and>
         lookup h' r = Some (Table (laplace_smoothing m alpha))) \<and>
      (\<exists>h' r. ensure_probability_matrix_h h t = Some (h', r) \<and> unchanged h h' \<and> fresh h r \<and>
         lookup h' r = Some (Table (ensure_probability_matrix m)))) \<and>
   (lookup h d = Some (Dict entries) \<and> distinct (map fst entries) \<and>
    read_tables h entries = Some tabs \<and> list_all (\<lambda>(age, tbl). labels_distinct tbl) tabs \<longrightarrow>
      (\<exists>h' r out res. shrink_toward_pool_h h d w = Some (h', r) \<and> unchanged h h' \<and>
         fresh h r \<and> lookup h' r = Some (Dict out) \<and> all_fresh h out \<and>
         shrink_toward_pool tabs w = Inr res \<and> read_tables h' out = Some res))"
proof (intro conjI impI)
  assume "lookup h df = Some (Frame f)"
  then show "\<exists>h' r. compute_age_months_h h df = Some (h', r) \<and> unchanged h h' \<and> fresh h r \<and>
         lookup h' r = Some (Frame (compute_age_months f))"
    by (rule compute_age_months_h_spec)
next
  assume "lookup h df = Some (Frame f)"
  then show "\<exists>h' r. build_vintage_pivot_h h df = Some (h', r) \<and> unchanged h h' \<and> fresh h r \<and>
         lookup h' r = Some (PivotTable (build_vintage_pivot f))"
    by (rule build_vintage_pivot_h_spec)
next
  assume "lookup h df = Some (Frame f)"
  then show "\<exists>h' r d. compute_empirical_transitions_h h df = Some (h', r) \<and> unchanged h h' \<and>
         fresh h r \<and> lookup h' r = Some (Dict d) \<and> all_fresh h d \<and>
         read_tables h' d = Some (compute_empirical_transitions f)"
    by (rule compute_empirical_transitions_h_spec)
next
  assume "lookup h t = Some (Table m)"
  then show "\<exists>h' r. row_normalize_h h t = Some (h', r) \<and> unchanged h h' \<and> fresh h r \<and>
         lookup h' r = Some (Table (row_normalize m))"
    by (rule row_normalize_h_spec)
next
  assume "lookup h t = Some (Table m)"
  then show "\<exists>h' r. laplace_smoothing_h h t alpha = Some (h', r) \<and> unchanged h h' \<and> fresh h r \<and>
         lookup h' r = Some (Table (laplace_smoothing m alpha))"
    by (rule laplace_smoothing_h_spec)
next
  assume "lookup h t = Some (Table m)"
  then show "\<exists>h' r. ensure_probability_matrix_h h t = Some (h', r) \<and> unchanged h h' \<and> fresh h r \<and>
         lookup h' r = Some (Table (ensure_probability_matrix m))"
    by (rule ensure_probability_matrix_h_spec)
next
  assume a: "lookup h d = Some (Dict entries) \<and> distinct (map fst entries) \<and>
    read_tables h entries = Some tabs \<and> list_all (\<lambda>(age, tbl). labels_distinct tbl) tabs"
  then have "lookup h d = Some (Dict entries)" "read_tables h entries = Some tabs"
    "list_all (\<lambda>(age, tbl). labels_distinct tbl) tabs" "distinct (map fst entries)"
    by simp_all
  then show "\<exists>h' r out res. shrink_toward_pool_h h d w = Some (h', r) \<and> unchanged h h' \<and>
         fresh h r \<and> lookup h' r = Some (Dict out) \<and> all_fresh h out \<and>
         shrink_toward_pool tabs w = Inr res \<and> read_tables h' out = Some res"
    by (rule shrink_toward_pool_h_spec)
qed

theorem public_functions_leave_inputs_unchanged_witness:
  "lookup example_heap 3 = Some (Frame example_book) \<and>
   lookup example_heap 0 = Some (Table example_age0) \<and>
   lookup example_heap 2 = Some (Dict [(0, 0), (1, 1)]) \<and>
   read_tables example_heap [(0, 0), (1, 1)] = Some example_tables \<and>
   list_all (\<lambda>(age, tbl). labels_distinct tbl) example_tables \<and>
   (\<exists>h' r. compute_age_months_h example_heap 3 = Some (h', r) \<and>
      unchanged example_heap h' \<and> fresh example_heap r) \<and>
   (\<exists>h' r. build_vintage_pivot_h example_heap 3 = Some (h', r) \<and>
      unchanged example_heap h' \<and> fresh example_heap r) \<and>
   (\<exists>h' r. compute_empirical_transitions_h example_heap 3 = Some (h', r) \<and>
      unchanged example_heap h' \<and> fresh example_heap r) \<and>
   (\<exists>h' r. row_normalize_h example_heap 0 = Some (h', r) \<and>
      unchanged example_heap h' \<and> fresh example_heap r) \<and>
   (\<exists>h' r. laplace_smoothing_h example_heap 0 1 = Some (h', r) \<and>
      unchanged example_heap h' \<and> fresh example_heap r) \<and>
   (\<exists>h' r. ensure_probability_matrix_h example_heap 0 = Some (h', r) \<and>
      unchanged example_heap h' \<and> fresh example_heap r) \<and>
   (\<exists>h' r out. shrink_toward_pool_h example_heap 2 (1 / 2) = Some (h', r) \<and>
      unchanged example_heap h' \<and> fresh example_heap r \<and>
      lookup h' r = Some (Dict out) \<and> all_fresh example_heap out)"
proof -
  have f: "lookup example_heap 3 = Some (Frame example_book)"
    by (simp add: example_heap_def lookup_def)
  have t: "lookup example_heap 0 = Some (Table example_age0)"
    by (simp add: example_heap_def lookup_def)
  have d: "lookup example_heap 2 = Some (Dict [(0, 0), (1, 1)])"
    by (simp add: example_heap_def lookup_def)
  have k: "distinct (map fst [(0::int, 0::nat), (1, 1)])"
    by simp
  have r: "read_tables example_heap [(0, 0), (1, 1)] = Some example_tables"
    by (simp add: example_heap_def get_table_def lookup_def example_tables_def)
  note l = example_distinct
  note inst = public_functions_leave_inputs_unchanged
    [of example_heap 3 example_book 0 example_age0 1 2 "[(0, 0), (1, 1)]" example_tables "1 / 2"]
  from inst f have c1: "\<exists>h' r. compute_age_months_h example_heap 3 = Some (h', r) \<and>
      unchanged example_heap h' \<and> fresh example_heap r"
    by blast
  from inst f have c2: "\<exists>h' r. build_vintage_pivot_h example_heap 3 = Some (h', r) \<and>
      unchanged example_heap h' \<and> fresh example_heap r"
    by blast
  from inst f have c3: "\<exists>h' r. compute_empirical_transitions_h example_heap 3 = Some (h', r) \<and>
      unchanged example_heap h' \<and> fresh example_heap r"
    by blast
  from inst t have c4: "\<exists>h' r. row_normalize_h example_heap 0 = Some (h', r) \<and>
      unchanged example_heap h' \<and> fresh example_heap r"
    by blast
  from inst t have c5: "\<exists>h' r. laplace_smoothing_h example_heap 0 1 = Some (h', r) \<and>
      unchanged example_heap h' \<and> fresh example_heap r"
    by blast
  from inst t have c6: "\<exists>h' r. ensure_probability_matrix_h example_heap 0 = Some (h', r) \<and>
      unchanged example_heap h' \<and> fresh example_heap r"
    by blast
  from inst d k r l have c7: "\<exists>h' r out. shrink_toward_pool_h example_heap 2 (1 / 2) = Some (h', r) \<and>
      unchanged example_heap h' \<and> fresh example_heap r \<and>
      lookup h' r = Some (Dict out) \<and> all_fresh example_heap out"
    by blast
  from f t d r l c1 c2 c3 c4 c5 c6 c7 show ?thesis
    by (intro conjI)
qed

end
